theory Spec2Isabelle
  imports Main "HOL-Library.Word"
begin

section \<open>The launcheq patch client (client/client.go)\<close>

text \<open>
  A shallow embedding of the patch synchronizer (\<open>patch\<close>, \<open>downloadPatchFile\<close>,
  \<open>md5Checksum\<close>, \<open>unpack\<close>) and of the self-updater (\<open>selfUpdate\<close>) of
  \<^verbatim>\<open>client/client.go\<close>. The Go code acts on the file system, on the network and on the
  fields of \<open>*Client\<close>; the model threads one record, \<open>world\<close>, through every function and
  returns it updated together with the Go error (\<open>None\<close> is \<open>nil\<close>). What the operating
  system, the network and third-party libraries answer is read from a second record,
  \<open>env\<close>, that the functions never change.
\<close>

subsection \<open>Package strings\<close>

text \<open>
  Go strings are byte sequences; \<open>string\<close> (a \<open>char list\<close>) is used for them. The functions
  of package \<^verbatim>\<open>strings\<close> are modelled on ASCII: \<open>ToUpper\<close>, \<open>ToLower\<close> map the 26 letters
  and \<open>TrimSpace\<close> removes tab, line feed, vertical tab, form feed, carriage return and
  space. (Go also maps and trims the non-ASCII code points of Unicode; bytes above 127 are
  left alone here.)
\<close>

definition lowerLetters :: string where
  "lowerLetters = ''abcdefghijklmnopqrstuvwxyz''"

definition upperLetters :: string where
  "upperLetters = ''ABCDEFGHIJKLMNOPQRSTUVWXYZ''"

definition toUpperChar :: "char \<Rightarrow> char" where
  "toUpperChar c = (case map_of (zip lowerLetters upperLetters) c of Some u \<Rightarrow> u | None \<Rightarrow> c)"

definition toLowerChar :: "char \<Rightarrow> char" where
  "toLowerChar c = (case map_of (zip upperLetters lowerLetters) c of Some u \<Rightarrow> u | None \<Rightarrow> c)"

definition ToUpper :: "string \<Rightarrow> string" where
  "ToUpper s = map toUpperChar s"

definition ToLower :: "string \<Rightarrow> string" where
  "ToLower s = map toLowerChar s"

definition isSpace :: "char \<Rightarrow> bool" where
  "isSpace c = (c = CHR 0x09 \<or> c = CHR 0x0A \<or> c = CHR 0x0B \<or> c = CHR 0x0C \<or> c = CHR 0x0D
     \<or> c = CHR '' '')"

definition TrimSpace :: "string \<Rightarrow> string" where
  "TrimSpace s = rev (dropWhile isSpace (rev (dropWhile isSpace s)))"

fun HasPrefix :: "string \<Rightarrow> string \<Rightarrow> bool" where
  "HasPrefix s [] = True"
| "HasPrefix [] (p # ps) = False"
| "HasPrefix (c # s) (p # ps) = (c = p \<and> HasPrefix s ps)"

definition HasSuffix :: "string \<Rightarrow> string \<Rightarrow> bool" where
  "HasSuffix s suffix = HasPrefix (rev s) (rev suffix)"

fun Contains :: "string \<Rightarrow> string \<Rightarrow> bool" where
  "Contains [] substr = (substr = [])"
| "Contains (c # s) substr = (HasPrefix (c # s) substr \<or> Contains s substr)"

definition TrimSuffix :: "string \<Rightarrow> string \<Rightarrow> string" where
  "TrimSuffix s suffix =
     (if HasSuffix s suffix then take (length s - length suffix) s else s)"

subsection \<open>Package path/filepath\<close>

text \<open>
  The lexical path functions of Go's standard library, in their Unix form (separator
  \<open>/\<close>, no volume names). \<open>Clean\<close> drops empty and \<open>.\<close> elements, lets an inner \<open>..\<close>
  cancel the element before it, keeps the leading \<open>..\<close> elements of a relative path and
  drops those of a rooted one; the empty result is \<open>.\<close>.
\<close>

definition sep :: char where
  "sep = CHR ''/''"

fun splitSep :: "string \<Rightarrow> string list" where
  "splitSep [] = [[]]"
| "splitSep (c # s) =
     (if c = sep then [] # splitSep s
      else (case splitSep s of [] \<Rightarrow> [[c]] | e # es \<Rightarrow> (c # e) # es))"

fun joinSep :: "string list \<Rightarrow> string" where
  "joinSep [] = []"
| "joinSep [e] = e"
| "joinSep (e # es) = e @ sep # joinSep es"

text \<open>\<open>cleanElems rooted elems out\<close>: \<open>out\<close> is the cleaned path so far, last element first.\<close>

fun cleanElems :: "bool \<Rightarrow> string list \<Rightarrow> string list \<Rightarrow> string list" where
  "cleanElems rooted [] out = rev out"
| "cleanElems rooted (e # es) out =
     (if e = [] \<or> e = ''.'' then cleanElems rooted es out
      else if e = ''..'' then
        (case out of
           [] \<Rightarrow> cleanElems rooted es (if rooted then [] else [''..''])
         | t # ts \<Rightarrow> if t = ''..'' then cleanElems rooted es (''..'' # t # ts)
                     else cleanElems rooted es ts)
      else cleanElems rooted es (e # out))"

definition Clean :: "string \<Rightarrow> string" where
  "Clean path =
     (if path = [] then ''.''
      else let rooted = (hd path = sep);
               out = joinSep (cleanElems rooted (splitSep path) [])
           in if rooted then sep # out
              else if out = [] then ''.'' else out)"

text \<open>\<open>Join\<close> skips the leading empty elements, joins the rest and cleans the result.\<close>

fun Join :: "string list \<Rightarrow> string" where
  "Join [] = []"
| "Join (e # es) = (if e = [] then Join es else Clean (joinSep (e # es)))"

text \<open>The part of \<open>path\<close> after its last separator, and the part up to and including it.\<close>

definition afterLastSep :: "string \<Rightarrow> string" where
  "afterLastSep path = rev (takeWhile (\<lambda>c. c \<noteq> sep) (rev path))"

definition uptoLastSep :: "string \<Rightarrow> string" where
  "uptoLastSep path = rev (dropWhile (\<lambda>c. c \<noteq> sep) (rev path))"

definition Dir :: "string \<Rightarrow> string" where
  "Dir path = Clean (uptoLastSep path)"

definition Base :: "string \<Rightarrow> string" where
  "Base path =
     (if path = [] then ''.''
      else let p = rev (dropWhile (\<lambda>c. c = sep) (rev path));
               b = afterLastSep p
           in if b = [] then [sep] else b)"

text \<open>\<open>Ext\<close>: from the last dot of the last element on; empty when that element has no dot.\<close>

definition Ext :: "string \<Rightarrow> string" where
  "Ext path =
     (let b = afterLastSep path
      in if CHR ''.'' \<in> set b
         then CHR ''.'' # rev (takeWhile (\<lambda>c. c \<noteq> CHR ''.'') (rev b))
         else [])"

subsection \<open>Data\<close>

text \<open>
  Modelled from the spec: \<open>FileEntry\<close> and \<open>FileList\<close>. The two types are declared in
  another file of the package, not in client.go; the fields are the ones client.go reads (\<open>entry.Name\<close>, \<open>entry.Md5\<close>, \<open>entry.Size\<close>,
  \<open>fileList.Version\<close>, \<open>fileList.DownloadPrefix\<close>, \<open>fileList.Downloads\<close>,
  \<open>fileList.Deletes\<close>), which are the ones the spec gives the manifest and its entries.
  \<open>Size\<close> is a Go \<open>int\<close>, 64 bits wide.
\<close>

record FileEntry =
  Name :: string
  Md5 :: string
  Size :: "64 word"

record FileList =
  Version :: string
  DownloadPrefix :: string
  Downloads :: "FileEntry list"
  Deletes :: "FileEntry list"

text \<open>Go errors: an error of the system or of a library (its text is not modelled), an
  error wrapped by \<^verbatim>\<open>fmt.Errorf("<prefix>: %w", err)\<close>, and the two errors client.go
  makes itself.\<close>

datatype error =
    OsError
  | Wrap string error
  | RespondedNot200 string nat
  | InvalidExtension string

text \<open>A path names a regular file with its content, or a directory.\<close>

datatype node = File string | Directory

text \<open>An HTTP response: status code and body.\<close>

datatype response = Response nat string

text \<open>The four places of client.go that issue \<^verbatim>\<open>client.Get\<close>.\<close>

datatype endpoint = HashTxt | SelfExe | MapsZip | PatchFile

text \<open>Every call that reaches outside the process is recorded, in order, whether it
  succeeds or not.\<close>

datatype event =
    HttpGet endpoint string
  | MkdirAll string
  | Create string
  | OpenFile string
  | Copy string
  | Remove string
  | Save string
  | Apply string

text \<open>One entry of a zip archive: stored name, whether its mode says directory, whether
  opening it for reading fails, and its uncompressed content.\<close>

record zipFile =
  zName :: string
  zIsDir :: bool
  zOpenErr :: bool
  zData :: string

text \<open>
  What the surroundings answer. \<open>httpGet url\<close> is the response (\<open>None\<close>: the request
  itself failed); \<open>md5Sum\<close> is the MD5 digest of a byte string (crypto/md5);
  \<open>zipRead\<close> is \<^verbatim>\<open>zip.OpenReader\<close> on a file's content; the \<open>...Err\<close> fields say
  which calls fail for reasons the model does not look into (permissions, a full disk, a
  broken connection). \<open>copyErr\<close> gives the number of bytes written before the failure,
  \<open>removeErr\<close> and \<open>saveErr\<close> the error's text, which the code logs. \<open>generateSize\<close> and
  \<open>elapsed\<close> stand for the floating-point formatting of sizes and of the run time.
\<close>

record env =
  executable :: "string option"
  httpGet :: "string \<Rightarrow> response option"
  readAllErr :: "string \<Rightarrow> bool"
  md5Sum :: "string \<Rightarrow> 8 word list"
  zipRead :: "string \<Rightarrow> zipFile list option"
  statErr :: "string \<Rightarrow> bool"
  openErr :: "string \<Rightarrow> bool"
  readErr :: "string \<Rightarrow> bool"
  mkdirErr :: "string \<Rightarrow> bool"
  createErr :: "string \<Rightarrow> bool"
  copyErr :: "string \<Rightarrow> nat option"
  removeErr :: "string \<Rightarrow> string option"
  saveErr :: "string option"
  applyErr :: bool
  generateSize :: "int \<Rightarrow> string"
  elapsed :: string

text \<open>
  The state: the fields of \<open>Client\<close> that the modelled functions use (\<open>cfgFileListVersion\<close>
  is \<open>c.cfg.FileListVersion\<close>), the package variable \<open>isMapsDownloaded\<close>, the file system
  (keyed by the path as the code spells it), the version record as last saved, and the
  calls made so far.
\<close>

record world =
  baseName :: string
  patcherUrl :: string
  clientVersion :: string
  isPatched :: bool
  patchSummary :: string
  cfgFileListVersion :: string
  cacheFileList :: FileList
  cacheLog :: string
  isMapsDownloaded :: bool
  files :: "string \<Rightarrow> node option"
  savedVersion :: string
  events :: "event list"

text \<open>The variables of \<open>patch\<close> that live across the iterations of its download loop.\<close>

record locals =
  progressSize :: "64 word"
  totalDownloaded :: "64 word"
  isMapsSkippedBefore :: bool

subsection \<open>The system calls\<close>

text \<open>
  The file system is a map from a path, as the code spells it, to what is there: two
  spellings of one path are two keys. A file's parent directory is not looked at when the
  file is created (the code makes the directories first), and a directory is removed
  whatever it holds. The answer to a request depends on its address only.
\<close>

definition emit :: "event \<Rightarrow> world \<Rightarrow> world" where
  "emit ev c = c\<lparr>events := events c @ [ev]\<rparr>"

datatype statResult = StatOk bool | StatNotExist | StatErr

text \<open>\<open>os.Stat\<close>; \<open>StatOk d\<close> carries \<open>fi.IsDir()\<close>.\<close>

definition os_Stat :: "env \<Rightarrow> string \<Rightarrow> world \<Rightarrow> statResult" where
  "os_Stat E name c =
     (if statErr E name then StatErr
      else case files c name of
             None \<Rightarrow> StatNotExist
           | Some Directory \<Rightarrow> StatOk True
           | Some (File _) \<Rightarrow> StatOk False)"

text \<open>The directories \<open>os.MkdirAll path\<close> makes sure of: every proper prefix of \<open>path\<close>
  that ends before a separator, and \<open>path\<close> itself without its trailing separators.\<close>

definition dirAt :: "string \<Rightarrow> string list" where
  "dirAt pre = (if pre = [] \<or> last pre = sep then [] else [pre])"

fun dirPrefixes :: "string \<Rightarrow> string \<Rightarrow> string list" where
  "dirPrefixes pre [] = dirAt pre"
| "dirPrefixes pre (c # s) =
     (if c = sep then dirAt pre @ dirPrefixes (pre @ [c]) s
      else dirPrefixes (pre @ [c]) s)"

definition isFile :: "world \<Rightarrow> string \<Rightarrow> bool" where
  "isFile c name = (case files c name of Some (File _) \<Rightarrow> True | _ \<Rightarrow> False)"

fun mkdirs :: "string list \<Rightarrow> (string \<Rightarrow> node option) \<Rightarrow> (string \<Rightarrow> node option)" where
  "mkdirs [] f = f"
| "mkdirs (d # ds) f = mkdirs ds (f(d \<mapsto> Directory))"

definition os_MkdirAll :: "env \<Rightarrow> string \<Rightarrow> world \<Rightarrow> error option \<times> world" where
  "os_MkdirAll E path c =
     (let c1 = emit (MkdirAll path) c; ds = dirPrefixes [] path
      in if mkdirErr E path \<or> list_ex (isFile c) ds then (Some OsError, c1)
         else (None, c1\<lparr>files := mkdirs ds (files c1)\<rparr>))"

text \<open>\<open>os.Create\<close>: the file is created, or truncated when it exists.\<close>

definition os_Create :: "env \<Rightarrow> string \<Rightarrow> world \<Rightarrow> error option \<times> world" where
  "os_Create E name c =
     (let c1 = emit (Create name) c
      in if createErr E name \<or> files c name = Some Directory then (Some OsError, c1)
         else (None, c1\<lparr>files := (files c1)(name \<mapsto> File [])\<rparr>))"

text \<open>\<open>os.OpenFile\<close> with \<^verbatim>\<open>O_WRONLY|O_CREATE|O_TRUNC\<close> (file modes are not modelled).\<close>

definition os_OpenFile :: "env \<Rightarrow> string \<Rightarrow> world \<Rightarrow> error option \<times> world" where
  "os_OpenFile E name c =
     (let c1 = emit (OpenFile name) c
      in if createErr E name \<or> files c name = Some Directory then (Some OsError, c1)
         else (None, c1\<lparr>files := (files c1)(name \<mapsto> File [])\<rparr>))"

text \<open>\<open>io.Copy\<close> into the file just created under \<open>name\<close>: all of \<open>body\<close>, or its first
  \<open>n\<close> bytes and an error.\<close>

definition io_Copy :: "env \<Rightarrow> string \<Rightarrow> string \<Rightarrow> world \<Rightarrow> error option \<times> world" where
  "io_Copy E name body c =
     (let c1 = emit (Copy name) c
      in case copyErr E name of
           Some n \<Rightarrow> (Some OsError, c1\<lparr>files := (files c1)(name \<mapsto> File (take n body))\<rparr>)
         | None \<Rightarrow> (None, c1\<lparr>files := (files c1)(name \<mapsto> File body)\<rparr>))"

datatype removeResult = RemoveOk | RemoveNotExist | RemoveFailed string

definition os_Remove :: "env \<Rightarrow> string \<Rightarrow> world \<Rightarrow> removeResult \<times> world" where
  "os_Remove E name c =
     (let c1 = emit (Remove name) c
      in case files c name of
           None \<Rightarrow> (RemoveNotExist, c1)
         | Some _ \<Rightarrow>
             (case removeErr E name of
                Some msg \<Rightarrow> (RemoveFailed msg, c1)
              | None \<Rightarrow> (RemoveOk, c1\<lparr>files := (files c1)(name := None)\<rparr>)))"

text \<open>The text of the error \<open>os.Remove\<close> returns for a missing file.\<close>

definition removeText :: "string \<Rightarrow> removeResult \<Rightarrow> string" where
  "removeText name r =
     (case r of RemoveFailed msg \<Rightarrow> msg
      | _ \<Rightarrow> ''remove '' @ name @ '': no such file or directory'')"

definition http_Get :: "env \<Rightarrow> endpoint \<Rightarrow> string \<Rightarrow> world \<Rightarrow> response option \<times> world" where
  "http_Get E ep url c = (httpGet E url, emit (HttpGet ep url) c)"

text \<open>Modelled from the spec: \<open>c.cfg.Save()\<close>. It belongs to package \<open>config\<close>, outside
  client.go; the spec describes that package as a store with the field \<open>FileListVersion\<close>
  and an operation that persists it and may fail.\<close>

definition cfg_Save :: "env \<Rightarrow> world \<Rightarrow> string option \<times> world" where
  "cfg_Save E c =
     (let c1 = emit (Save (cfgFileListVersion c)) c
      in case saveErr E of
           Some msg \<Rightarrow> (Some msg, c1)
         | None \<Rightarrow> (None, c1\<lparr>savedVersion := cfgFileListVersion c\<rparr>))"

text \<open>\<open>selfupdate.Apply\<close> (github.com/fynelabs/selfupdate) with default options: the
  running executable's file gets the new content.\<close>

definition selfupdate_Apply :: "env \<Rightarrow> string \<Rightarrow> world \<Rightarrow> error option \<times> world" where
  "selfupdate_Apply E body c =
     (let c1 = emit (Apply body) c
      in case executable E of
           None \<Rightarrow> (Some OsError, c1)
         | Some exe \<Rightarrow>
             if applyErr E then (Some OsError, c1)
             else (None, c1\<lparr>files := (files c1)(exe \<mapsto> File body)\<rparr>))"

subsection \<open>logf and md5Checksum\<close>

definition logf :: "string \<Rightarrow> world \<Rightarrow> world" where
  "logf text c = c\<lparr>cacheLog := cacheLog c @ text @ [CHR 0x0A]\<rparr>"

text \<open>\<^verbatim>\<open>fmt.Sprintf("%x", h.Sum(nil))\<close>: two lower-case hexadecimal digits a byte.\<close>

definition hexDigit :: "nat \<Rightarrow> char" where
  "hexDigit n = ''0123456789abcdef'' ! n"

definition hexByte :: "8 word \<Rightarrow> string" where
  "hexByte b = [hexDigit (unat b div 16), hexDigit (unat b mod 16)]"

definition hexString :: "8 word list \<Rightarrow> string" where
  "hexString bs = concat (map hexByte bs)"

definition md5Checksum :: "env \<Rightarrow> string \<Rightarrow> world \<Rightarrow> error + string" where
  "md5Checksum E path c =
     (case files c path of
        None \<Rightarrow> Inl OsError
      | Some Directory \<Rightarrow> (if openErr E path then Inl OsError else Inl (Wrap ''new'' OsError))
      | Some (File content) \<Rightarrow>
          if openErr E path then Inl OsError
          else if readErr E path then Inl (Wrap ''new'' OsError)
          else Inr (hexString (md5Sum E content)))"

subsection \<open>unpack\<close>

definition zip_OpenReader :: "env \<Rightarrow> string \<Rightarrow> world \<Rightarrow> zipFile list option" where
  "zip_OpenReader E srcFile c =
     (case files c srcFile of
        Some (File content) \<Rightarrow> if openErr E srcFile then None else zipRead E content
      | _ \<Rightarrow> None)"

text \<open>The body of the loop over \<open>r.File\<close>, for one entry \<open>f\<close>.\<close>

definition unpackFile :: "env \<Rightarrow> string \<Rightarrow> zipFile \<Rightarrow> world \<Rightarrow> error option \<times> world" where
  "unpackFile E dstDir f c =
     (let filePath = Join [dstDir, zName f]
      in if zIsDir f then
           (case os_MkdirAll E filePath c of
              (Some err, c1) \<Rightarrow> (Some (Wrap ''mkdirall'' err), c1)
            | (None, c1) \<Rightarrow> (None, c1))
         else
           (case os_MkdirAll E (Dir filePath) c of
              (Some err, c1) \<Rightarrow> (Some (Wrap ''mkdirall'' err), c1)
            | (None, c1) \<Rightarrow>
                (case os_OpenFile E filePath c1 of
                   (Some err, c2) \<Rightarrow> (Some (Wrap ''openfile'' err), c2)
                 | (None, c2) \<Rightarrow>
                     if zOpenErr f then (Some (Wrap ''open'' OsError), c2)
                     else (case io_Copy E filePath (zData f) c2 of
                             (Some err, c3) \<Rightarrow> (Some (Wrap ''copy'' err), c3)
                           | (None, c3) \<Rightarrow> (None, c3)))))"

fun unpackFiles :: "env \<Rightarrow> string \<Rightarrow> zipFile list \<Rightarrow> world \<Rightarrow> error option \<times> world" where
  "unpackFiles E dstDir [] c = (None, c)"
| "unpackFiles E dstDir (f # fs) c =
     (case unpackFile E dstDir f c of
        (Some err, c1) \<Rightarrow> (Some err, c1)
      | (None, c1) \<Rightarrow> unpackFiles E dstDir fs c1)"

definition unpack :: "env \<Rightarrow> string \<Rightarrow> string \<Rightarrow> world \<Rightarrow> error option \<times> world" where
  "unpack E srcFile dstDir c =
     (let ext = Ext srcFile
      in if ext \<noteq> ''.zip'' then (Some (InvalidExtension ext), c)
         else (case zip_OpenReader E srcFile c of
                 None \<Rightarrow> (Some (Wrap ''open'' OsError), c)
               | Some r \<Rightarrow> unpackFiles E dstDir r c))"

subsection \<open>downloadPatchFile\<close>

definition downloadPatchFile :: "env \<Rightarrow> FileEntry \<Rightarrow> world \<Rightarrow> error option \<times> world" where
  "downloadPatchFile E entry c =
     (if \<not> isMapsDownloaded c \<and> HasPrefix (ToLower (Name entry)) ''maps/'' then
        (let c0 = logf ''Downloading maps.zip...'' c;
             url = patcherUrl c @ ''/maps.zip''
         in case http_Get E MapsZip url c0 of
              (None, c1) \<Rightarrow> (Some (Wrap (''download '' @ url) OsError), c1)
            | (Some (Response code body), c1) \<Rightarrow>
                if code \<noteq> 200 then (Some (RespondedNot200 url code), c1)
                else (case os_Create E ''maps.zip'' c1 of
                        (Some err, c2) \<Rightarrow> (Some (Wrap (''create '' @ Name entry) err), c2)
                      | (None, c2) \<Rightarrow>
                          (case io_Copy E ''maps.zip'' body c2 of
                             (Some err, c3) \<Rightarrow> (Some (Wrap (''write '' @ Name entry) err), c3)
                           | (None, c3) \<Rightarrow>
                               (case unpack E ''maps.zip'' ''.'' c3 of
                                  (Some err, c4) \<Rightarrow> (Some (Wrap (''unzip '' @ Name entry) err), c4)
                                | (None, c4) \<Rightarrow> (None, c4\<lparr>isMapsDownloaded := True\<rparr>)))))
      else
        (let c0 = logf (Name entry @ '' ('' @ generateSize E (sint (Size entry)) @ '')'') c
         in case os_Create E (Name entry) c0 of
              (Some err, c1) \<Rightarrow> (Some (Wrap (''create '' @ Name entry) err), c1)
            | (None, c1) \<Rightarrow>
                (let url = DownloadPrefix (cacheFileList c1) @ ''/'' @ clientVersion c1 @ ''/''
                             @ Name entry
                 in case http_Get E PatchFile url c1 of
                      (None, c2) \<Rightarrow> (Some (Wrap (''download '' @ url) OsError), c2)
                    | (Some (Response code body), c2) \<Rightarrow>
                        if code \<noteq> 200 then (Some (RespondedNot200 url code), c2)
                        else (case io_Copy E (Name entry) body c2 of
                                (Some err, c3) \<Rightarrow> (Some (Wrap (''write '' @ Name entry) err), c3)
                              | (None, c3) \<Rightarrow> (None, c3)))))"

subsection \<open>patch\<close>

text \<open>
  The body of the loop over \<open>fileList.Downloads\<close>, for one entry: \<open>Inr\<close> with the loop
  variables is \<^verbatim>\<open>continue\<close> (or the end of the body), \<open>Inl\<close> is \<^verbatim>\<open>return err\<close>.
\<close>

definition newPathOf :: "FileEntry \<Rightarrow> string" where
  "newPathOf entry = TrimSuffix (Name entry) (Base (Name entry))"

text \<open>The \<^verbatim>\<open>if strings.Contains(entry.Name, "/")\<close> block at the head of the body.\<close>

definition ensureDir :: "env \<Rightarrow> FileEntry \<Rightarrow> world \<Rightarrow> error option \<times> world" where
  "ensureDir E entry c =
     (if Contains (Name entry) ''/'' then os_MkdirAll E (newPathOf entry) c else (None, c))"

definition downloadStep ::
  "env \<Rightarrow> FileEntry \<Rightarrow> locals \<Rightarrow> world \<Rightarrow> (error + locals) \<times> world" where
  "downloadStep E entry l c =
     (if Contains (Name entry) ''..'' then
        (Inr l, logf (''Skipping '' @ Name entry @ '', has .. inside it'') c)
      else
        case ensureDir E entry c of
             (Some err, c1) \<Rightarrow> (Inl (Wrap (''mkdir '' @ newPathOf entry) err), c1)
           | (None, c1) \<Rightarrow>
               (case os_Stat E (Name entry) c1 of
                  StatNotExist \<Rightarrow>
                    (case downloadPatchFile E entry c1 of
                       (Some err, c2) \<Rightarrow> (Inl (Wrap ''download new file'' err), c2)
                     | (None, c2) \<Rightarrow>
                         (Inr (l\<lparr>totalDownloaded := totalDownloaded l + Size entry,
                                 progressSize := progressSize l + Size entry\<rparr>),
                          c2\<lparr>isPatched := True\<rparr>))
                | StatErr \<Rightarrow> (Inl (Wrap (''stat '' @ Name entry) OsError), c1)
                | StatOk _ \<Rightarrow>
                    (case md5Checksum E (Name entry) c1 of
                       Inl err \<Rightarrow> (Inl (Wrap ''md5checksum'' err), c1)
                     | Inr hash \<Rightarrow>
                         if hash = Md5 entry then
                           (let l1 = l\<lparr>progressSize := progressSize l + Size entry\<rparr>
                            in if HasPrefix (ToLower (Name entry)) ''maps/'' then
                                 (if isMapsSkippedBefore l1 then (Inr l1, c1)
                                  else (Inr (l1\<lparr>isMapsSkippedBefore := True\<rparr>),
                                        logf (Name entry @ '' skipped (up to date)'') c1))
                               else (Inr l1, logf (Name entry @ '' skipped (up to date)'') c1))
                         else
                           (case downloadPatchFile E entry c1 of
                              (Some err, c2) \<Rightarrow> (Inl (Wrap ''download new file'' err), c2)
                            | (None, c2) \<Rightarrow>
                                (Inr (l\<lparr>progressSize := progressSize l + Size entry,
                                        totalDownloaded := totalDownloaded l + Size entry\<rparr>),
                                 c2\<lparr>isPatched := True\<rparr>)))))"

fun downloadLoop ::
  "env \<Rightarrow> FileEntry list \<Rightarrow> locals \<Rightarrow> world \<Rightarrow> (error + locals) \<times> world" where
  "downloadLoop E [] l c = (Inr l, c)"
| "downloadLoop E (entry # rest) l c =
     (case downloadStep E entry l c of
        (Inl err, c1) \<Rightarrow> (Inl err, c1)
      | (Inr l1, c1) \<Rightarrow> downloadLoop E rest l1 c1)"

text \<open>The body of the loop over \<open>fileList.Deletes\<close>: \<open>None\<close> goes on to the next entry,
  \<open>Some err\<close> is \<^verbatim>\<open>return err\<close>.\<close>

definition deleteStep :: "env \<Rightarrow> FileEntry \<Rightarrow> world \<Rightarrow> error option \<times> world" where
  "deleteStep E entry c =
     (if Contains (Name entry) ''..'' then
        (None, logf (''Skipping '' @ Name entry @ '', has .. inside it'') c)
      else
        case os_Stat E (Name entry) c of
          StatNotExist \<Rightarrow> (None, c)
        | StatErr \<Rightarrow> (Some (Wrap (''stat '' @ Name entry) OsError), c)
        | StatOk isDir \<Rightarrow>
            if isDir then
              (None, logf (''Skipping deleting '' @ Name entry @ '', it is a directory'') c)
            else
              (case os_Remove E (Name entry) c of
                 (RemoveOk, c1) \<Rightarrow> (None, logf (Name entry @ '' removed'') c1)
               | (r, c1) \<Rightarrow>
                   (None, logf (''Failed to delete '' @ Name entry @ '': ''
                                 @ removeText (Name entry) r) c1)))"

fun deleteLoop :: "env \<Rightarrow> FileEntry list \<Rightarrow> world \<Rightarrow> error option \<times> world" where
  "deleteLoop E [] c = (None, c)"
| "deleteLoop E (entry # rest) c =
     (case deleteStep E entry c of
        (Some err, c1) \<Rightarrow> (Some err, c1)
      | (None, c1) \<Rightarrow> deleteLoop E rest c1)"

definition totalSizeOf :: "FileEntry list \<Rightarrow> 64 word" where
  "totalSizeOf entries = foldl (\<lambda>totalSize entry. totalSize + Size entry) 0 entries"

definition patch :: "env \<Rightarrow> world \<Rightarrow> error option \<times> world" where
  "patch E c =
     (let fileList = cacheFileList c
      in if cfgFileListVersion c = Version fileList then
           (if length (Version fileList) < 8 then (None, logf ''We are up to date'' c)
            else (None, logf (''We are up to date latest patch '' @ take 8 (Version fileList)) c))
         else
           let totalSize = totalSizeOf (Downloads fileList);
               c0 = (if length (Version fileList) < 8
                     then logf (''Total patch size: '' @ generateSize E (sint totalSize)) c
                     else logf (''Total patch size: '' @ generateSize E (sint totalSize)
                                @ '', version: '' @ take 8 (Version fileList)) c)
           in case downloadLoop E (Downloads fileList)
                     \<lparr>progressSize = 1, totalDownloaded = 0, isMapsSkippedBefore = False\<rparr> c0 of
                (Inl err, c1) \<Rightarrow> (Some err, c1)
              | (Inr l, c1) \<Rightarrow>
                  (case deleteLoop E (Deletes fileList) c1 of
                     (Some err, c2) \<Rightarrow> (Some err, c2)
                   | (None, c2) \<Rightarrow>
                       (let c3 = c2\<lparr>cfgFileListVersion := Version fileList\<rparr>;
                            c4 = (case cfg_Save E c3 of
                                    (Some msg, c') \<Rightarrow>
                                      logf (''Failed to save version to eqemupatch.yml: '' @ msg) c'
                                  | (None, c') \<Rightarrow> c')
                        in if totalDownloaded l = 0 then
                             (None, c4\<lparr>patchSummary :=
                                ''Finished patch in '' @ elapsed E @ '' seconds''\<rparr>)
                           else
                             (None, c4\<lparr>patchSummary :=
                                ''Finished patch of '' @ generateSize E (sint (totalDownloaded l))
                                @ '' in '' @ elapsed E @ '' seconds''\<rparr>))))"

subsection \<open>selfUpdate\<close>

text \<open>The two best-effort removals at the start of \<open>selfUpdate\<close>: \<open>shown\<close> is the name as
  the log lines print it.\<close>

definition removeLeftover :: "env \<Rightarrow> string \<Rightarrow> string \<Rightarrow> world \<Rightarrow> world" where
  "removeLeftover E name shown c =
     (case os_Remove E name c of
        (RemoveOk, c1) \<Rightarrow> logf (''Removed '' @ shown) c1
      | (RemoveNotExist, c1) \<Rightarrow> c1
      | (RemoveFailed msg, c1) \<Rightarrow> logf (''Failed to remove '' @ shown @ '': '' @ msg) c1)"

definition selfUpdate :: "env \<Rightarrow> world \<Rightarrow> error option \<times> world" where
  "selfUpdate E c =
     (case executable E of
        None \<Rightarrow> (Some (Wrap ''executable'' OsError), c)
      | Some exeName \<Rightarrow>
         (let c1 = removeLeftover E (baseName c @ ''.bat'') (baseName c @ ''.bat'') c;
              c2 = removeLeftover E (''.'' @ baseName c @ ''.exe.old'')
                     (''.'' @ baseName c @ ''.exe.old'') c1
          in case md5Checksum E exeName c2 of
               Inl err \<Rightarrow> (Some (Wrap ''checksum'' err), c2)
             | Inr myHash0 \<Rightarrow>
                 (let url = patcherUrl c2 @ ''/launcheq-hash.txt'';
                      c3 = logf (''Checking for self update at '' @ url) c2
                  in case http_Get E HashTxt url c3 of
                       (None, c4) \<Rightarrow> (Some (Wrap (''download '' @ url) OsError), c4)
                     | (Some (Response code body), c4) \<Rightarrow>
                         if code \<noteq> 200 then (Some (RespondedNot200 url code), c4)
                         else if readAllErr E url then (Some (Wrap (''read '' @ url) OsError), c4)
                         else
                           (let myHash = ToUpper (TrimSpace myHash0);
                                remoteHash = ToUpper (TrimSpace body)
                            in if remoteHash = ''Not Found'' then
                                 (None, logf ''Remote site down, ignoring self update'' c4)
                               else if myHash = remoteHash then
                                 (None, logf ''Self update not needed'' c4)
                               else
                                 (let c5 = logf (''Updating '' @ baseName c4 @ ''... '' @ myHash
                                                 @ '' vs '' @ remoteHash) c4;
                                      url2 = patcherUrl c5 @ ''/'' @ baseName c5 @ ''.exe'';
                                      c6 = logf (''Downloading '' @ baseName c5 @ '' at '' @ url2) c5
                                  in case http_Get E SelfExe url2 c6 of
                                       (None, c7) \<Rightarrow> (Some (Wrap ''get'' OsError), c7)
                                     | (Some (Response code2 body2), c7) \<Rightarrow>
                                         if code2 \<noteq> 200 then (Some (RespondedNot200 url2 code2), c7)
                                         else
                                           (case selfupdate_Apply E body2
                                                   (logf ''Applying update (will be used next launch)'' c7) of
                                              (Some err, c8) \<Rightarrow> (Some (Wrap ''apply'' err), c8)
                                            | (None, c8) \<Rightarrow> (None, c8)))))))"

subsection \<open>Notions used in the properties\<close>

text \<open>Nothing of the code is modelled here: these definitions name what the properties
  below speak about.\<close>

text \<open>For the download loop: \<open>isMaps\<close> is the test
  \<^verbatim>\<open>strings.HasPrefix(strings.ToLower(entry.Name), "maps/")\<close>. \<open>localHash E entry c\<close> is
  the hash the loop body compares with \<open>entry.Md5\<close>, when it gets that far: the name
  has no \<open>..\<close>, the directory could be made, \<open>os.Stat\<close> found the path and
  \<open>md5Checksum\<close> returned a hash.\<close>

definition isMaps :: "FileEntry \<Rightarrow> bool" where
  "isMaps entry = HasPrefix (ToLower (Name entry)) ''maps/''"

definition localHash :: "env \<Rightarrow> FileEntry \<Rightarrow> world \<Rightarrow> string option" where
  "localHash E entry c =
     (if Contains (Name entry) ''..'' then None
      else case ensureDir E entry c of
             (Some err, c1) \<Rightarrow> None
           | (None, c1) \<Rightarrow>
               (case os_Stat E (Name entry) c1 of
                  StatOk d \<Rightarrow> (case md5Checksum E (Name entry) c1 of Inl err \<Rightarrow> None | Inr hash \<Rightarrow> Some hash)
                | StatNotExist \<Rightarrow> None
                | StatErr \<Rightarrow> None))"

text \<open>The requests for the bulk archive among the calls made: those that the \<open>maps/\<close>
  branch of \<open>downloadPatchFile\<close> issues. \<open>bulkBound\<close> is their number plus the one more
  that can still come while \<open>isMapsDownloaded\<close> is unset.\<close>

fun isBulkFetch :: "event \<Rightarrow> bool" where
  "isBulkFetch (HttpGet MapsZip url) = True"
| "isBulkFetch ev = False"

definition bulkFetches :: "world \<Rightarrow> nat" where
  "bulkFetches c = length (filter isBulkFetch (events c))"

definition bulkBound :: "world \<Rightarrow> nat" where
  "bulkBound c = bulkFetches c + (if isMapsDownloaded c then 0 else 1)"

text \<open>A relative path that, cleaned, begins with the element \<open>..\<close> names a place outside
  the directory it is relative to.\<close>

definition outsideDir :: "string \<Rightarrow> bool" where
  "outsideDir path = (hd (splitSep (Clean path)) = ''..'')"

text \<open>For \<open>selfUpdate\<close>: the two addresses it requests,
  the two removals it starts with, the conditions under which it gets as far as comparing
  the hashes (the executable's path is known and its file can be hashed, the removals do
  not concern that file, the request for the remote hash is answered with status 200 and
  the body can be read), and the calls that follow the request for the executable.\<close>

definition hashUrl :: "world \<Rightarrow> string" where
  "hashUrl c = patcherUrl c @ ''/launcheq-hash.txt''"

definition exeUrl :: "world \<Rightarrow> string" where
  "exeUrl c = patcherUrl c @ ''/'' @ baseName c @ ''.exe''"

definition cleanupCalls :: "world \<Rightarrow> event list" where
  "cleanupCalls c = [Remove (baseName c @ ''.bat''), Remove (''.'' @ baseName c @ ''.exe.old'')]"

definition reachesCompare :: "env \<Rightarrow> world \<Rightarrow> string \<Rightarrow> string \<Rightarrow> string \<Rightarrow> bool" where
  "reachesCompare E c exe content body =
     (executable E = Some exe \<and> files c exe = Some (File content)
      \<and> exe \<noteq> baseName c @ ''.bat'' \<and> exe \<noteq> ''.'' @ baseName c @ ''.exe.old''
      \<and> openErr E exe = False \<and> readErr E exe = False
      \<and> httpGet E (hashUrl c) = Some (Response 200 body)
      \<and> readAllErr E (hashUrl c) = False)"

text \<open>The update is applied when the answer to that request has status 200.\<close>

definition applyCalls :: "env \<Rightarrow> world \<Rightarrow> event list" where
  "applyCalls E c =
     (case httpGet E (exeUrl c) of
        None \<Rightarrow> []
      | Some (Response code body2) \<Rightarrow> if code = 200 then [Apply body2] else [])"

text \<open>For a whole pass: the loop variables and the state with which \<open>patch\<close> enters its
  download loop, what \<open>patch\<close> does with the outcome of that loop, the download loop of
  \<open>patch\<close> run over a first part \<open>pre\<close> of the manifest, and whether some entry of a list,
  when its turn comes in the loop, is an up-to-date entry under \<open>maps/\<close>. That \<open>patch\<close>
  is made of these parts is lemma \<open>patch_phases\<close> below.\<close>

definition patchLocals :: locals where
  "patchLocals = \<lparr>progressSize = 1, totalDownloaded = 0, isMapsSkippedBefore = False\<rparr>"

definition patchStart :: "env \<Rightarrow> world \<Rightarrow> world" where
  "patchStart E c =
     (if length (Version (cacheFileList c)) < 8
      then logf (''Total patch size: ''
                 @ generateSize E (sint (totalSizeOf (Downloads (cacheFileList c))))) c
      else logf (''Total patch size: ''
                 @ generateSize E (sint (totalSizeOf (Downloads (cacheFileList c))))
                 @ '', version: '' @ take 8 (Version (cacheFileList c))) c)"

definition patchFinish :: "env \<Rightarrow> world \<Rightarrow> (error + locals) \<times> world \<Rightarrow> error option \<times> world" where
  "patchFinish E c r =
     (case r of
        (Inl err, c1) \<Rightarrow> (Some err, c1)
      | (Inr l, c1) \<Rightarrow>
          (case deleteLoop E (Deletes (cacheFileList c)) c1 of
             (Some err, c2) \<Rightarrow> (Some err, c2)
           | (None, c2) \<Rightarrow>
               (let c3 = c2\<lparr>cfgFileListVersion := Version (cacheFileList c)\<rparr>;
                    c4 = (case cfg_Save E c3 of
                            (Some msg, c') \<Rightarrow>
                              logf (''Failed to save version to eqemupatch.yml: '' @ msg) c'
                          | (None, c') \<Rightarrow> c')
                in if totalDownloaded l = 0 then
                     (None, c4\<lparr>patchSummary :=
                        ''Finished patch in '' @ elapsed E @ '' seconds''\<rparr>)
                   else
                     (None, c4\<lparr>patchSummary :=
                        ''Finished patch of '' @ generateSize E (sint (totalDownloaded l))
                        @ '' in '' @ elapsed E @ '' seconds''\<rparr>))))"

definition passAt :: "env \<Rightarrow> world \<Rightarrow> FileEntry list \<Rightarrow> (error + locals) \<times> world" where
  "passAt E c pre = downloadLoop E pre patchLocals (patchStart E c)"

fun mapsSkippedIn :: "env \<Rightarrow> FileEntry list \<Rightarrow> locals \<Rightarrow> world \<Rightarrow> bool" where
  "mapsSkippedIn E [] l c = False"
| "mapsSkippedIn E (entry # rest) l c =
     ((isMaps entry \<and> localHash E entry c = Some (Md5 entry))
      \<or> (case downloadStep E entry l c of
            (Inl err, c1) \<Rightarrow> False
          | (Inr l1, c1) \<Rightarrow> mapsSkippedIn E rest l1 c1))"

subsection \<open>Example surroundings\<close>

text \<open>Concrete surroundings and states, on which the theorems below are run. \<open>exampleMd5\<close>
  is MD5 on the three byte strings the examples hash (the digests of the empty string, of
  \<open>a\<close> and of \<open>abc\<close>, from RFC 1321).\<close>

definition exampleMd5 :: "string \<Rightarrow> 8 word list" where
  "exampleMd5 content =
     (if content = [] then
        [0xd4, 0x1d, 0x8c, 0xd9, 0x8f, 0x00, 0xb2, 0x04, 0xe9, 0x80, 0x09, 0x98, 0xec, 0xf8, 0x42, 0x7e]
      else if content = ''a'' then
        [0x0c, 0xc1, 0x75, 0xb9, 0xc0, 0xf1, 0xb6, 0xa8, 0x31, 0xc3, 0x99, 0xe2, 0x69, 0x77, 0x26, 0x61]
      else if content = ''abc'' then
        [0x90, 0x01, 0x50, 0x98, 0x3c, 0xd2, 0x4f, 0xb0, 0xd6, 0x96, 0x3f, 0x7d, 0x28, 0xe1, 0x7f, 0x72]
      else [])"

definition exampleEnv :: env where
  "exampleEnv =
     \<lparr>executable = Some ''/games/eq/launcheq.exe'',
      httpGet = (\<lambda>url. None),
      readAllErr = (\<lambda>url. False),
      md5Sum = exampleMd5,
      zipRead = (\<lambda>content. None),
      statErr = (\<lambda>name. False),
      openErr = (\<lambda>name. False),
      readErr = (\<lambda>name. False),
      mkdirErr = (\<lambda>name. False),
      createErr = (\<lambda>name. False),
      copyErr = (\<lambda>name. None),
      removeErr = (\<lambda>name. None),
      saveErr = None,
      applyErr = False,
      generateSize = (\<lambda>n. ''?''),
      elapsed = ''0.00''\<rparr>"

definition exampleWorld :: world where
  "exampleWorld =
     \<lparr>baseName = ''launcheq'',
      patcherUrl = ''http://patch.example'',
      clientVersion = ''rof'',
      isPatched = False,
      patchSummary = [],
      cfgFileListVersion = [],
      cacheFileList = \<lparr>Version = ''abc12345'', DownloadPrefix = ''http://files.example'',
                        Downloads = [], Deletes = []\<rparr>,
      cacheLog = [],
      isMapsDownloaded = False,
      files = Map.empty,
      savedVersion = [],
      events = []\<rparr>"

definition exampleLocals :: locals where
  "exampleLocals = \<lparr>progressSize = 1, totalDownloaded = 0, isMapsSkippedBefore = False\<rparr>"

text \<open>A manifest whose version is the recorded one, with one file to download and one
  to delete.\<close>

definition sameVersionWorld :: world where
  "sameVersionWorld =
     exampleWorld\<lparr>cfgFileListVersion := ''abc12345'',
       cacheFileList := \<lparr>Version = ''abc12345'', DownloadPrefix = ''http://files.example'',
          Downloads = [\<lparr>Name = ''data/foo.dat'', Md5 = ''900150983cd24fb0d6963f7d28e17f72'',
                        Size = 100\<rparr>],
          Deletes = [\<lparr>Name = ''old/bar.dat'', Md5 = [], Size = 0\<rparr>]\<rparr>,
       files := [''old/bar.dat'' \<mapsto> File ''x'']\<rparr>"

text \<open>An entry whose name leads out of the directory, and a file under that name.\<close>

definition traversalEntry :: FileEntry where
  "traversalEntry =
     \<lparr>Name = ''../evil.dat'', Md5 = ''0cc175b9c0f1b6a831c399e269772661'', Size = 1\<rparr>"

definition traversalWorld :: world where
  "traversalWorld = exampleWorld\<lparr>files := [''../evil.dat'' \<mapsto> File ''x'']\<rparr>"

text \<open>Four paths to delete: a missing one, a directory, a file that cannot be removed and
  a file that can.\<close>

definition deleteEnv :: env where
  "deleteEnv =
     exampleEnv\<lparr>removeErr :=
       (\<lambda>name. if name = ''locked.dat'' then Some ''access denied'' else None)\<rparr>"

definition deleteWorld :: world where
  "deleteWorld =
     exampleWorld\<lparr>files :=
       [''old/bar.dat'' \<mapsto> File ''x'', ''olddir'' \<mapsto> Directory, ''locked.dat'' \<mapsto> File ''y'']\<rparr>"

definition goneEntry :: FileEntry where
  "goneEntry = \<lparr>Name = ''gone.dat'', Md5 = [], Size = 0\<rparr>"

definition dirEntry :: FileEntry where
  "dirEntry = \<lparr>Name = ''olddir'', Md5 = [], Size = 0\<rparr>"

definition lockedEntry :: FileEntry where
  "lockedEntry = \<lparr>Name = ''locked.dat'', Md5 = [], Size = 0\<rparr>"

definition barEntry :: FileEntry where
  "barEntry = \<lparr>Name = ''old/bar.dat'', Md5 = [], Size = 0\<rparr>"

text \<open>Three files that are up to date, two of them under \<open>maps/\<close> (one spelled with a
  capital), and the loop variables after the first of these was skipped.\<close>

definition mapsWorld :: world where
  "mapsWorld = exampleWorld\<lparr>files :=
     [''maps/a.txt'' \<mapsto> File ''a'', ''Maps/b.txt'' \<mapsto> File ''abc'', ''readme.txt'' \<mapsto> File []]\<rparr>"

definition mapsA :: FileEntry where
  "mapsA = \<lparr>Name = ''maps/a.txt'', Md5 = ''0cc175b9c0f1b6a831c399e269772661'', Size = 1\<rparr>"

definition mapsB :: FileEntry where
  "mapsB = \<lparr>Name = ''Maps/b.txt'', Md5 = ''900150983cd24fb0d6963f7d28e17f72'', Size = 3\<rparr>"

definition readme :: FileEntry where
  "readme = \<lparr>Name = ''readme.txt'', Md5 = ''d41d8cd98f00b204e9800998ecf8427e'', Size = 0\<rparr>"

definition skippedLocals :: locals where
  "skippedLocals = \<lparr>progressSize = 2, totalDownloaded = 0, isMapsSkippedBefore = True\<rparr>"

text \<open>A file whose content is \<open>abc\<close>, a server that has it, and two entries for it: one
  with the hash as \<open>md5Checksum\<close> prints it, one with the same hash in capitals.\<close>

definition caseEnv :: env where
  "caseEnv = exampleEnv\<lparr>httpGet :=
     (\<lambda>url. if url = ''http://files.example/rof/foo.dat'' then Some (Response 200 ''abc'') else None)\<rparr>"

definition caseWorld :: world where
  "caseWorld = exampleWorld\<lparr>files := [''foo.dat'' \<mapsto> File ''abc'']\<rparr>"

definition lowerEntry :: FileEntry where
  "lowerEntry = \<lparr>Name = ''foo.dat'', Md5 = ''900150983cd24fb0d6963f7d28e17f72'', Size = 3\<rparr>"

definition upperEntry :: FileEntry where
  "upperEntry = \<lparr>Name = ''foo.dat'', Md5 = ''900150983CD24FB0D6963F7D28E17F72'', Size = 3\<rparr>"

text \<open>A server that answers 404, and an entry for \<open>foo.dat\<close> whose hash is not the one of
  the file at hand.\<close>

definition notFoundEnv :: env where
  "notFoundEnv = exampleEnv\<lparr>httpGet := (\<lambda>url. Some (Response 404 ''gone''))\<rparr>"

definition staleEntry :: FileEntry where
  "staleEntry = \<lparr>Name = ''foo.dat'', Md5 = ''0cc175b9c0f1b6a831c399e269772661'', Size = 1\<rparr>"

text \<open>A server with the bulk archive (one file in it) and every single file; a manifest
  with three entries under \<open>maps/\<close>, none of them on disk.\<close>

definition mapsZipEnv :: env where
  "mapsZipEnv = exampleEnv\<lparr>
     httpGet := (\<lambda>url. if url = ''http://patch.example/maps.zip'' then Some (Response 200 ''PK'')
                       else Some (Response 200 ''abc'')),
     zipRead := (\<lambda>content. if content = ''PK''
                           then Some [\<lparr>zName = ''maps/a.txt'', zIsDir = False, zOpenErr = False,
                                       zData = ''a''\<rparr>]
                           else None)\<rparr>"

definition mapsZipWorld :: world where
  "mapsZipWorld = exampleWorld\<lparr>cacheFileList :=
     \<lparr>Version = ''abc12345'', DownloadPrefix = ''http://files.example'',
      Downloads = [\<lparr>Name = ''maps/a.txt'', Md5 = ''0cc175b9c0f1b6a831c399e269772661'', Size = 1\<rparr>,
                   \<lparr>Name = ''maps/b.txt'', Md5 = ''900150983cd24fb0d6963f7d28e17f72'', Size = 3\<rparr>,
                   \<lparr>Name = ''Maps/c.txt'', Md5 = ''900150983cd24fb0d6963f7d28e17f72'', Size = 3\<rparr>],
      Deletes = []\<rparr>\<rparr>"

text \<open>An archive with one entry, named \<open>../evil.txt\<close>; a server that has this archive as
  \<open>maps.zip\<close>; a state in which \<open>maps.zip\<close> is on disk; and a manifest with one entry under
  \<open>maps/\<close>.\<close>

definition evilFile :: zipFile where
  "evilFile = \<lparr>zName = ''../evil.txt'', zIsDir = False, zOpenErr = False, zData = ''x''\<rparr>"

definition evilEnv :: env where
  "evilEnv = exampleEnv\<lparr>
     httpGet := (\<lambda>url. if url = ''http://patch.example/maps.zip'' then Some (Response 200 ''PK'')
                       else None),
     zipRead := (\<lambda>content. if content = ''PK'' then Some [evilFile] else None)\<rparr>"

definition evilZipWorld :: world where
  "evilZipWorld = exampleWorld\<lparr>files := [''maps.zip'' \<mapsto> File ''PK'']\<rparr>"

definition evilManifestWorld :: world where
  "evilManifestWorld = exampleWorld\<lparr>cacheFileList :=
     \<lparr>Version = ''abc12345'', DownloadPrefix = ''http://files.example'',
      Downloads = [\<lparr>Name = ''maps/a.txt'', Md5 = ''0cc175b9c0f1b6a831c399e269772661'', Size = 1\<rparr>],
      Deletes = []\<rparr>\<rparr>"

text \<open>An executable with content \<open>abc\<close>; a server that publishes its hash, in capitals
  and followed by a line feed; a server that publishes another hash and has a new
  executable; a server that answers every request with status 200 and the text
  \<open>Not Found\<close>.\<close>

definition gateWorld :: world where
  "gateWorld = exampleWorld\<lparr>files := [''/games/eq/launcheq.exe'' \<mapsto> File ''abc'']\<rparr>"

definition sameHashEnv :: env where
  "sameHashEnv = exampleEnv\<lparr>httpGet :=
     (\<lambda>url. if url = ''http://patch.example/launcheq-hash.txt''
            then Some (Response 200 (''900150983CD24FB0D6963F7D28E17F72'' @ [CHR 0x0A]))
            else None)\<rparr>"

definition newHashEnv :: env where
  "newHashEnv = exampleEnv\<lparr>httpGet :=
     (\<lambda>url. if url = ''http://patch.example/launcheq-hash.txt''
            then Some (Response 200 ''0cc175b9c0f1b6a831c399e269772661'')
            else if url = ''http://patch.example/launcheq.exe'' then Some (Response 200 ''a'')
            else None)\<rparr>"

definition sentinelEnv :: env where
  "sentinelEnv = exampleEnv\<lparr>httpGet := (\<lambda>url. Some (Response 200 ''Not Found''))\<rparr>"

text \<open>A manifest with the three up-to-date files, one of them twice, and the first line
  \<open>patch\<close> logs for it.\<close>

definition mapsPassWorld :: world where
  "mapsPassWorld = mapsWorld\<lparr>cacheFileList :=
     \<lparr>Version = ''abc12345'', DownloadPrefix = ''http://files.example'',
      Downloads = [readme, mapsA, mapsB, readme], Deletes = []\<rparr>\<rparr>"

definition passHeader :: string where
  "passHeader = ''Total patch size: ?, version: abc12345'' @ [CHR 0x0A]"

section \<open>Properties\<close>

subsection \<open>What the building blocks leave alone\<close>

lemma logf_frame [simp]:
  "files (logf t c) = files c"
  "events (logf t c) = events c"
  "savedVersion (logf t c) = savedVersion c"
  "cfgFileListVersion (logf t c) = cfgFileListVersion c"
  "isMapsDownloaded (logf t c) = isMapsDownloaded c"
  "isPatched (logf t c) = isPatched c"
  "cacheFileList (logf t c) = cacheFileList c"
  "baseName (logf t c) = baseName c"
  "patcherUrl (logf t c) = patcherUrl c"
  "clientVersion (logf t c) = clientVersion c"
  "patchSummary (logf t c) = patchSummary c"
  "cacheLog (logf t c) = cacheLog c @ t @ [CHR 0x0A]"
  by (simp_all add: logf_def)

subsection \<open>The fast path of patch\<close>

text \<open>
  C3. When the manifest's version equals the recorded version, \<open>patch\<close> returns \<open>nil\<close>
  at once: the file system is as before, no call that reaches outside the process has been
  made (no download, no delete, no directory creation), and the version record is neither
  changed nor saved. Only the log has grown.
\<close>

theorem patch_same_version_is_noop:
  assumes "cfgFileListVersion c = Version (cacheFileList c)"
  shows "fst (patch E c) = None
       \<and> files (snd (patch E c)) = files c
       \<and> events (snd (patch E c)) = events c
       \<and> savedVersion (snd (patch E c)) = savedVersion c
       \<and> cfgFileListVersion (snd (patch E c)) = cfgFileListVersion c
       \<and> isPatched (snd (patch E c)) = isPatched c
       \<and> isMapsDownloaded (snd (patch E c)) = isMapsDownloaded c"
  using assms by (simp add: patch_def Let_def)

theorem patch_same_version_is_noop_witness:
  "cfgFileListVersion sameVersionWorld = Version (cacheFileList sameVersionWorld)
   \<and> fst (patch exampleEnv sameVersionWorld) = None
   \<and> files (snd (patch exampleEnv sameVersionWorld)) ''old/bar.dat'' = Some (File ''x'')
   \<and> files (snd (patch exampleEnv sameVersionWorld)) ''data/foo.dat'' = None
   \<and> events (snd (patch exampleEnv sameVersionWorld)) = []
   \<and> savedVersion (snd (patch exampleEnv sameVersionWorld)) = []"
proof -
  have h: "cfgFileListVersion sameVersionWorld = Version (cacheFileList sameVersionWorld)"
    by (simp add: sameVersionWorld_def exampleWorld_def)
  show ?thesis
    using h patch_same_version_is_noop [OF h, of exampleEnv]
    by (simp add: sameVersionWorld_def exampleWorld_def)
qed

lemma emit_frame [simp]:
  "files (emit ev c) = files c"
  "events (emit ev c) = events c @ [ev]"
  "savedVersion (emit ev c) = savedVersion c"
  "cfgFileListVersion (emit ev c) = cfgFileListVersion c"
  "isMapsDownloaded (emit ev c) = isMapsDownloaded c"
  "isPatched (emit ev c) = isPatched c"
  "cacheFileList (emit ev c) = cacheFileList c"
  "baseName (emit ev c) = baseName c"
  "patcherUrl (emit ev c) = patcherUrl c"
  "clientVersion (emit ev c) = clientVersion c"
  "patchSummary (emit ev c) = patchSummary c"
  "cacheLog (emit ev c) = cacheLog c"
  by (simp_all add: emit_def)

subsection \<open>Names with a parent-directory element\<close>

text \<open>The code tests for the substring \<open>..\<close>. A name with an element \<open>..\<close> has it.\<close>

lemma splitSep_nonempty: "splitSep s \<noteq> []"
  by (induction s) (auto split: list.splits)

lemma dotdot_segment_Contains: "''..'' \<in> set (splitSep name) \<Longrightarrow> Contains name ''..''"
proof (induction name)
  case Nil
  then show ?case by simp
next
  case (Cons c s)
  show ?case
  proof (cases "c = sep")
    case True
    with Cons show ?thesis by auto
  next
    case False
    obtain e es where sp: "splitSep s = e # es"
      using splitSep_nonempty [of s] by (cases "splitSep s") auto
    with False Cons.prems have "''..'' = c # e \<or> ''..'' \<in> set es" by simp
    then show ?thesis
    proof
      assume "''..'' = c # e"
      then have c: "c = CHR ''.''" and e: "e = ''.''" by auto
      have "s \<noteq> []" using sp e by auto
      then obtain d t where s: "s = d # t" by (cases s) auto
      have "d = CHR ''.''"
        using sp e s by (auto split: if_splits list.splits simp: sep_def)
      with c s show ?thesis by simp
    next
      assume "''..'' \<in> set es"
      with sp have "''..'' \<in> set (splitSep s)" by simp
      with Cons.IH show ?thesis by simp
    qed
  qed
qed

text \<open>
  C6. A Download Entry or a Delete Entry whose name contains \<open>..\<close> is skipped: the loop
  body writes one log line and goes on to the rest of the list (the pass is not aborted),
  with the file system and the list of calls made as they were: no directory is created,
  no file written, nothing removed.
\<close>

theorem traversal_entry_is_skipped:
  assumes "Contains (Name entry) ''..''"
  shows "downloadStep E entry l c
           = (Inr l, logf (''Skipping '' @ Name entry @ '', has .. inside it'') c)
       \<and> deleteStep E entry c
           = (None, logf (''Skipping '' @ Name entry @ '', has .. inside it'') c)
       \<and> downloadLoop E (entry # rest) l c
           = downloadLoop E rest l (logf (''Skipping '' @ Name entry @ '', has .. inside it'') c)
       \<and> deleteLoop E (entry # rest) c
           = deleteLoop E rest (logf (''Skipping '' @ Name entry @ '', has .. inside it'') c)
       \<and> files (logf (''Skipping '' @ Name entry @ '', has .. inside it'') c) = files c
       \<and> events (logf (''Skipping '' @ Name entry @ '', has .. inside it'') c) = events c"
  using assms by (simp add: downloadStep_def deleteStep_def)

theorem traversal_entry_is_skipped_witness:
  "Contains (Name traversalEntry) ''..''
   \<and> fst (downloadLoop exampleEnv [traversalEntry] exampleLocals traversalWorld) = Inr exampleLocals
   \<and> events (snd (downloadLoop exampleEnv [traversalEntry] exampleLocals traversalWorld)) = []
   \<and> files (snd (downloadLoop exampleEnv [traversalEntry] exampleLocals traversalWorld)) ''../evil.dat''
        = Some (File ''x'')
   \<and> fst (deleteLoop exampleEnv [traversalEntry] traversalWorld) = None
   \<and> events (snd (deleteLoop exampleEnv [traversalEntry] traversalWorld)) = []
   \<and> files (snd (deleteLoop exampleEnv [traversalEntry] traversalWorld)) ''../evil.dat''
        = Some (File ''x'')
   \<and> cacheLog (snd (deleteLoop exampleEnv [traversalEntry] traversalWorld))
        = ''Skipping ../evil.dat, has .. inside it'' @ [CHR 0x0A]"
proof -
  have h: "Contains (Name traversalEntry) ''..''"
    by (simp add: traversalEntry_def)
  show ?thesis
    using h traversal_entry_is_skipped [OF h, of exampleEnv exampleLocals traversalWorld "[]"]
    by (simp add: traversalWorld_def exampleWorld_def traversalEntry_def)
qed

subsection \<open>The delete loop\<close>

text \<open>The entries are taken in the order of the list.\<close>

lemma deleteLoop_append:
  "deleteLoop E (xs @ ys) c =
     (case deleteLoop E xs c of
        (Some err, c1) \<Rightarrow> (Some err, c1)
      | (None, c1) \<Rightarrow> deleteLoop E ys c1)"
  by (induction xs arbitrary: c) (auto split: prod.splits option.splits)

text \<open>
  C7. For a Delete Entry with a name free of \<open>..\<close>, on which \<open>os.Stat\<close> answers: a
  missing path leaves everything as it is, log included; a directory is logged and stays;
  a regular file is removed (\<open>os.Stat\<close> no longer finds it) and that is logged; when the
  removal fails, the failure is logged and the file stays. In each case the loop goes on
  to the next entry.
\<close>

theorem delete_entry_outcomes:
  assumes "\<not> Contains (Name entry) ''..''" and "\<not> statErr E (Name entry)"
  shows "(files c (Name entry) = None \<longrightarrow> deleteStep E entry c = (None, c))
       \<and> (files c (Name entry) = Some Directory \<longrightarrow>
            deleteStep E entry c
              = (None, logf (''Skipping deleting '' @ Name entry @ '', it is a directory'') c))
       \<and> (\<forall>content. files c (Name entry) = Some (File content) \<and> removeErr E (Name entry) = None \<longrightarrow>
            fst (deleteStep E entry c) = None
            \<and> files (snd (deleteStep E entry c)) = (files c)(Name entry := None)
            \<and> os_Stat E (Name entry) (snd (deleteStep E entry c)) = StatNotExist
            \<and> events (snd (deleteStep E entry c)) = events c @ [Remove (Name entry)]
            \<and> cacheLog (snd (deleteStep E entry c))
                = cacheLog c @ Name entry @ '' removed'' @ [CHR 0x0A])
       \<and> (\<forall>content msg. files c (Name entry) = Some (File content)
              \<and> removeErr E (Name entry) = Some msg \<longrightarrow>
            fst (deleteStep E entry c) = None
            \<and> files (snd (deleteStep E entry c)) = files c
            \<and> events (snd (deleteStep E entry c)) = events c @ [Remove (Name entry)]
            \<and> cacheLog (snd (deleteStep E entry c))
                = cacheLog c @ ''Failed to delete '' @ Name entry @ '': '' @ msg @ [CHR 0x0A])
       \<and> deleteLoop E (entry # rest) c = deleteLoop E rest (snd (deleteStep E entry c))"
  using assms
  by (auto simp: deleteStep_def os_Stat_def os_Remove_def removeText_def Let_def
      split: option.splits node.splits)

theorem delete_entry_outcomes_witness:
  "\<not> Contains (Name barEntry) ''..'' \<and> \<not> statErr deleteEnv (Name barEntry)
   \<and> files deleteWorld (Name goneEntry) = None
   \<and> files deleteWorld (Name dirEntry) = Some Directory
   \<and> files deleteWorld (Name lockedEntry) = Some (File ''y'')
   \<and> removeErr deleteEnv (Name lockedEntry) = Some ''access denied''
   \<and> files deleteWorld (Name barEntry) = Some (File ''x'')
   \<and> removeErr deleteEnv (Name barEntry) = None
   \<and> deleteStep deleteEnv goneEntry deleteWorld = (None, deleteWorld)
   \<and> files (snd (deleteStep deleteEnv dirEntry deleteWorld)) ''olddir'' = Some Directory
   \<and> events (snd (deleteStep deleteEnv dirEntry deleteWorld)) = []
   \<and> files (snd (deleteStep deleteEnv lockedEntry deleteWorld)) ''locked.dat'' = Some (File ''y'')
   \<and> cacheLog (snd (deleteStep deleteEnv lockedEntry deleteWorld))
        = ''Failed to delete locked.dat: access denied'' @ [CHR 0x0A]
   \<and> files (snd (deleteStep deleteEnv barEntry deleteWorld)) ''old/bar.dat'' = None
   \<and> events (snd (deleteStep deleteEnv barEntry deleteWorld)) = [Remove ''old/bar.dat'']
   \<and> fst (deleteLoop deleteEnv [goneEntry, dirEntry, lockedEntry, barEntry] deleteWorld) = None
   \<and> events (snd (deleteLoop deleteEnv [goneEntry, dirEntry, lockedEntry, barEntry] deleteWorld))
        = [Remove ''locked.dat'', Remove ''old/bar.dat'']
   \<and> cacheLog (snd (deleteLoop deleteEnv [goneEntry, dirEntry, lockedEntry, barEntry] deleteWorld))
        = ''Skipping deleting olddir, it is a directory'' @ [CHR 0x0A]
          @ ''Failed to delete locked.dat: access denied'' @ [CHR 0x0A]
          @ ''old/bar.dat removed'' @ [CHR 0x0A]"
proof -
  have names: "\<not> Contains (Name goneEntry) ''..''" "\<not> Contains (Name dirEntry) ''..''"
    "\<not> Contains (Name lockedEntry) ''..''" "\<not> Contains (Name barEntry) ''..''"
    by (simp_all add: goneEntry_def dirEntry_def lockedEntry_def barEntry_def)
  have stat: "\<not> statErr deleteEnv n" for n
    by (simp add: deleteEnv_def exampleEnv_def)
  have w: "files deleteWorld (Name goneEntry) = None"
    "files deleteWorld (Name dirEntry) = Some Directory"
    "files deleteWorld (Name lockedEntry) = Some (File ''y'')"
    "files deleteWorld (Name barEntry) = Some (File ''x'')"
    by (simp_all add: deleteWorld_def exampleWorld_def goneEntry_def dirEntry_def lockedEntry_def
        barEntry_def)
  have r: "removeErr deleteEnv (Name lockedEntry) = Some ''access denied''"
    "removeErr deleteEnv (Name barEntry) = None"
    by (simp_all add: deleteEnv_def exampleEnv_def lockedEntry_def barEntry_def)
  note gone = delete_entry_outcomes [OF names(1) stat, of deleteWorld "[]"]
  note dir = delete_entry_outcomes [OF names(2) stat, of deleteWorld "[]"]
  note locked = delete_entry_outcomes [OF names(3) stat, of deleteWorld "[]"]
  note bar = delete_entry_outcomes [OF names(4) stat, of deleteWorld "[]"]
  have steps: "deleteStep deleteEnv goneEntry deleteWorld = (None, deleteWorld)"
    "files (snd (deleteStep deleteEnv dirEntry deleteWorld)) ''olddir'' = Some Directory"
    "events (snd (deleteStep deleteEnv dirEntry deleteWorld)) = []"
    "files (snd (deleteStep deleteEnv lockedEntry deleteWorld)) ''locked.dat'' = Some (File ''y'')"
    "cacheLog (snd (deleteStep deleteEnv lockedEntry deleteWorld))
        = ''Failed to delete locked.dat: access denied'' @ [CHR 0x0A]"
    "files (snd (deleteStep deleteEnv barEntry deleteWorld)) ''old/bar.dat'' = None"
    "events (snd (deleteStep deleteEnv barEntry deleteWorld)) = [Remove ''old/bar.dat'']"
    using gone dir locked bar w r
    by (simp_all add: deleteWorld_def exampleWorld_def goneEntry_def dirEntry_def lockedEntry_def
        barEntry_def)
  have loop: "fst (deleteLoop deleteEnv [goneEntry, dirEntry, lockedEntry, barEntry] deleteWorld) = None"
    "events (snd (deleteLoop deleteEnv [goneEntry, dirEntry, lockedEntry, barEntry] deleteWorld))
        = [Remove ''locked.dat'', Remove ''old/bar.dat'']"
    "cacheLog (snd (deleteLoop deleteEnv [goneEntry, dirEntry, lockedEntry, barEntry] deleteWorld))
        = ''Skipping deleting olddir, it is a directory'' @ [CHR 0x0A]
          @ ''Failed to delete locked.dat: access denied'' @ [CHR 0x0A]
          @ ''old/bar.dat removed'' @ [CHR 0x0A]"
    by (simp_all add: deleteWorld_def deleteEnv_def exampleWorld_def exampleEnv_def goneEntry_def
        dirEntry_def lockedEntry_def barEntry_def deleteStep_def os_Stat_def os_Remove_def
        removeText_def Let_def)
  show ?thesis
    using names(4) stat [of "Name barEntry"] w r steps loop by simp
qed

subsection \<open>The download loop: entries whose file is there\<close>

lemma os_MkdirAll_frame:
  "events (snd (os_MkdirAll E p c)) = events c @ [MkdirAll p]"
  "cacheLog (snd (os_MkdirAll E p c)) = cacheLog c"
  "isMapsDownloaded (snd (os_MkdirAll E p c)) = isMapsDownloaded c"
  "isPatched (snd (os_MkdirAll E p c)) = isPatched c"
  "savedVersion (snd (os_MkdirAll E p c)) = savedVersion c"
  "cfgFileListVersion (snd (os_MkdirAll E p c)) = cfgFileListVersion c"
  "cacheFileList (snd (os_MkdirAll E p c)) = cacheFileList c"
  "patcherUrl (snd (os_MkdirAll E p c)) = patcherUrl c"
  "clientVersion (snd (os_MkdirAll E p c)) = clientVersion c"
  "baseName (snd (os_MkdirAll E p c)) = baseName c"
  by (simp_all add: os_MkdirAll_def Let_def)

lemma ensureDir_frame:
  "events (snd (ensureDir E entry c))
     = events c @ (if Contains (Name entry) ''/'' then [MkdirAll (newPathOf entry)] else [])"
  "cacheLog (snd (ensureDir E entry c)) = cacheLog c"
  "isMapsDownloaded (snd (ensureDir E entry c)) = isMapsDownloaded c"
  "isPatched (snd (ensureDir E entry c)) = isPatched c"
  "savedVersion (snd (ensureDir E entry c)) = savedVersion c"
  "cfgFileListVersion (snd (ensureDir E entry c)) = cfgFileListVersion c"
  "cacheFileList (snd (ensureDir E entry c)) = cacheFileList c"
  "patcherUrl (snd (ensureDir E entry c)) = patcherUrl c"
  "clientVersion (snd (ensureDir E entry c)) = clientVersion c"
  by (simp_all add: ensureDir_def os_MkdirAll_frame)

lemma localHash_SomeD:
  assumes "localHash E entry c = Some hash"
  shows "\<not> Contains (Name entry) ''..''"
    and "fst (ensureDir E entry c) = None"
    and "\<exists>d. os_Stat E (Name entry) (snd (ensureDir E entry c)) = StatOk d"
    and "md5Checksum E (Name entry) (snd (ensureDir E entry c)) = Inr hash"
  using assms
  by (auto simp: localHash_def split: if_splits prod.splits option.splits statResult.splits sum.splits)

lemma downloadStep_hash:
  assumes "localHash E entry c = Some hash"
  shows "downloadStep E entry l c =
     (if hash = Md5 entry then
        (Inr (l\<lparr>progressSize := progressSize l + Size entry,
               isMapsSkippedBefore := isMapsSkippedBefore l \<or> isMaps entry\<rparr>),
         (if isMaps entry \<and> isMapsSkippedBefore l then snd (ensureDir E entry c)
          else logf (Name entry @ '' skipped (up to date)'') (snd (ensureDir E entry c))))
      else
        (case downloadPatchFile E entry (snd (ensureDir E entry c)) of
           (Some err, c2) \<Rightarrow> (Inl (Wrap ''download new file'' err), c2)
         | (None, c2) \<Rightarrow>
             (Inr (l\<lparr>progressSize := progressSize l + Size entry,
                    totalDownloaded := totalDownloaded l + Size entry\<rparr>),
              c2\<lparr>isPatched := True\<rparr>)))"
  using localHash_SomeD [OF assms]
  by (cases "ensureDir E entry c")
     (auto simp: downloadStep_def isMaps_def Let_def split: prod.splits option.splits)

lemma downloadStep_flag:
  "fst (downloadStep E entry l c) = Inr l1 \<Longrightarrow>
     isMapsSkippedBefore l1
       = (isMapsSkippedBefore l \<or> (isMaps entry \<and> localHash E entry c = Some (Md5 entry)))"
  by (auto simp: downloadStep_def localHash_def isMaps_def Let_def
      split: if_splits prod.splits option.splits statResult.splits sum.splits)

lemma downloadStep_equal_frame:
  assumes "localHash E entry c = Some (Md5 entry)"
  shows "events (snd (downloadStep E entry l c))
           = events c @ (if Contains (Name entry) ''/'' then [MkdirAll (newPathOf entry)] else [])"
    and "files (snd (downloadStep E entry l c)) = files (snd (ensureDir E entry c))"
    and "isPatched (snd (downloadStep E entry l c)) = isPatched c"
    and "isMapsDownloaded (snd (downloadStep E entry l c)) = isMapsDownloaded c"
  by (simp_all add: downloadStep_hash [OF assms] ensureDir_frame)

lemma downloadLoop_append:
  "downloadLoop E (xs @ ys) l c =
     (case downloadLoop E xs l c of
        (Inl err, c1) \<Rightarrow> (Inl err, c1)
      | (Inr l1, c1) \<Rightarrow> downloadLoop E ys l1 c1)"
  by (induction xs arbitrary: l c) (auto split: prod.splits sum.splits)

text \<open>\<open>patch\<close>, when the versions differ, is its download loop, entered with
  \<open>isMapsSkippedBefore\<close> unset, followed by the rest.\<close>

lemma patch_phases:
  "cfgFileListVersion c \<noteq> Version (cacheFileList c) \<Longrightarrow>
     patch E c = patchFinish E c (passAt E c (Downloads (cacheFileList c)))"
  by (simp add: patch_def patchFinish_def passAt_def patchStart_def patchLocals_def Let_def)

lemma downloadLoop_flag:
  "downloadLoop E entries l c = (Inr l1, c1) \<Longrightarrow>
     isMapsSkippedBefore l1 = (isMapsSkippedBefore l \<or> mapsSkippedIn E entries l c)"
proof (induction entries arbitrary: l c)
  case Nil
  then show ?case by simp
next
  case (Cons entry rest)
  obtain r0 c0 where st: "downloadStep E entry l c = (r0, c0)"
    by (cases "downloadStep E entry l c")
  show ?case
  proof (cases r0)
    case (Inl err)
    with Cons.prems st show ?thesis by simp
  next
    case (Inr l0)
    with Cons.prems st have "downloadLoop E rest l0 c0 = (Inr l1, c1)" by simp
    from Cons.IH [OF this] have "isMapsSkippedBefore l1
        = (isMapsSkippedBefore l0 \<or> mapsSkippedIn E rest l0 c0)" .
    moreover have "isMapsSkippedBefore l0
        = (isMapsSkippedBefore l \<or> (isMaps entry \<and> localHash E entry c = Some (Md5 entry)))"
      using downloadStep_flag [of E entry l c l0] st Inr by simp
    ultimately show ?thesis using st Inr by auto
  qed
qed

lemma passAt_flag:
  "passAt E c pre = (Inr l1, c1) \<Longrightarrow>
     isMapsSkippedBefore l1 = mapsSkippedIn E pre patchLocals (patchStart E c)"
  unfolding passAt_def using downloadLoop_flag [of E pre patchLocals "patchStart E c" l1 c1]
  by (simp add: patchLocals_def)

lemma passAt_entry:
  assumes "passAt E c pre = (Inr l1, c1)"
  shows "passAt E c (pre @ entry # rest)
           = (case downloadStep E entry l1 c1 of
                (Inl err, c2) \<Rightarrow> (Inl err, c2)
              | (Inr l2, c2) \<Rightarrow> downloadLoop E rest l2 c2)"
  using assms by (simp add: passAt_def downloadLoop_append)

text \<open>
  C8. For an entry that is up to date (its file is there and its hash is \<open>entry.Md5\<close>)
  the loop body counts the entry and logs \<open>skipped (up to date)\<close>, unless the name starts
  with \<open>maps/\<close> (in any letter case) and \<open>isMapsSkippedBefore\<close> is set: then it logs
  nothing. An up-to-date \<open>maps/\<close> entry sets the variable and nothing else changes it.
  For a whole pass: let the manifest be \<open>pre @ entry # rest\<close>, let the download loop of
  \<open>patch\<close> get through \<open>pre\<close>, and let \<open>entry\<close> be up to date then. The variable is set at
  that point exactly when some entry of \<open>pre\<close> was an up-to-date \<open>maps/\<close> entry at its
  turn. So the first up-to-date \<open>maps/\<close> entry of the pass is logged, every later one adds
  nothing to the log, and an up-to-date entry not under \<open>maps/\<close> is always logged; and
  \<open>patch\<close> goes on from the state so reached.
\<close>

theorem uptodate_maps_logged_once:
  "(localHash E entry c = Some (Md5 entry) \<longrightarrow>
      fst (downloadStep E entry l c)
        = Inr (l\<lparr>progressSize := progressSize l + Size entry,
                 isMapsSkippedBefore := isMapsSkippedBefore l \<or> isMaps entry\<rparr>)
      \<and> cacheLog (snd (downloadStep E entry l c))
        = (if isMaps entry \<and> isMapsSkippedBefore l then cacheLog c
           else cacheLog c @ Name entry @ '' skipped (up to date)'' @ [CHR 0x0A]))
   \<and> (\<forall>l1. fst (downloadStep E entry l c) = Inr l1 \<longrightarrow>
        isMapsSkippedBefore l1
          = (isMapsSkippedBefore l \<or> (isMaps entry \<and> localHash E entry c = Some (Md5 entry))))
   \<and> (cfgFileListVersion w \<noteq> Version (cacheFileList w)
        \<and> Downloads (cacheFileList w) = pre @ entry # rest
        \<and> passAt E w pre = (Inr lp, cp)
        \<and> localHash E entry cp = Some (Md5 entry) \<longrightarrow>
      isMapsSkippedBefore lp = mapsSkippedIn E pre patchLocals (patchStart E w)
      \<and> cacheLog (snd (downloadStep E entry lp cp))
        = (if isMaps entry \<and> mapsSkippedIn E pre patchLocals (patchStart E w) then cacheLog cp
           else cacheLog cp @ Name entry @ '' skipped (up to date)'' @ [CHR 0x0A])
      \<and> patch E w
        = patchFinish E w
            (downloadLoop E rest
               (lp\<lparr>progressSize := progressSize lp + Size entry,
                   isMapsSkippedBefore :=
                     mapsSkippedIn E pre patchLocals (patchStart E w) \<or> isMaps entry\<rparr>)
               (snd (downloadStep E entry lp cp))))"
proof (intro conjI impI allI)
  assume h: "localHash E entry c = Some (Md5 entry)"
  show "fst (downloadStep E entry l c)
        = Inr (l\<lparr>progressSize := progressSize l + Size entry,
                 isMapsSkippedBefore := isMapsSkippedBefore l \<or> isMaps entry\<rparr>)"
    by (simp add: downloadStep_hash [OF h])
  show "cacheLog (snd (downloadStep E entry l c))
        = (if isMaps entry \<and> isMapsSkippedBefore l then cacheLog c
           else cacheLog c @ Name entry @ '' skipped (up to date)'' @ [CHR 0x0A])"
    by (simp add: downloadStep_hash [OF h] ensureDir_frame)
next
  fix l1 assume "fst (downloadStep E entry l c) = Inr l1"
  then show "isMapsSkippedBefore l1
          = (isMapsSkippedBefore l \<or> (isMaps entry \<and> localHash E entry c = Some (Md5 entry)))"
    by (rule downloadStep_flag)
next
  assume a: "cfgFileListVersion w \<noteq> Version (cacheFileList w)
        \<and> Downloads (cacheFileList w) = pre @ entry # rest
        \<and> passAt E w pre = (Inr lp, cp)
        \<and> localHash E entry cp = Some (Md5 entry)"
  then have ver: "cfgFileListVersion w \<noteq> Version (cacheFileList w)"
    and dl: "Downloads (cacheFileList w) = pre @ entry # rest"
    and pa: "passAt E w pre = (Inr lp, cp)"
    and h: "localHash E entry cp = Some (Md5 entry)"
    by simp_all
  show flag: "isMapsSkippedBefore lp = mapsSkippedIn E pre patchLocals (patchStart E w)"
    by (rule passAt_flag [OF pa])
  show "cacheLog (snd (downloadStep E entry lp cp))
        = (if isMaps entry \<and> mapsSkippedIn E pre patchLocals (patchStart E w) then cacheLog cp
           else cacheLog cp @ Name entry @ '' skipped (up to date)'' @ [CHR 0x0A])"
    by (simp add: downloadStep_hash [OF h] ensureDir_frame flag)
  have step: "downloadStep E entry lp cp
      = (Inr (lp\<lparr>progressSize := progressSize lp + Size entry,
                 isMapsSkippedBefore :=
                   mapsSkippedIn E pre patchLocals (patchStart E w) \<or> isMaps entry\<rparr>),
         snd (downloadStep E entry lp cp))"
    by (simp add: downloadStep_hash [OF h] flag)
  have "passAt E w (pre @ entry # rest)
      = downloadLoop E rest
               (lp\<lparr>progressSize := progressSize lp + Size entry,
                   isMapsSkippedBefore :=
                     mapsSkippedIn E pre patchLocals (patchStart E w) \<or> isMaps entry\<rparr>)
               (snd (downloadStep E entry lp cp))"
    unfolding passAt_entry [OF pa] by (subst step) simp
  then show "patch E w
        = patchFinish E w
            (downloadLoop E rest
               (lp\<lparr>progressSize := progressSize lp + Size entry,
                   isMapsSkippedBefore :=
                     mapsSkippedIn E pre patchLocals (patchStart E w) \<or> isMaps entry\<rparr>)
               (snd (downloadStep E entry lp cp)))"
    using patch_phases [OF ver, of E] dl by simp
qed

theorem uptodate_maps_logged_once_witness:
  "localHash exampleEnv mapsA mapsWorld = Some (Md5 mapsA) \<and> isMaps mapsA
   \<and> localHash exampleEnv mapsB mapsWorld = Some (Md5 mapsB) \<and> isMaps mapsB
   \<and> localHash exampleEnv readme mapsWorld = Some (Md5 readme) \<and> \<not> isMaps readme
   \<and> fst (downloadStep exampleEnv mapsA exampleLocals mapsWorld) = Inr skippedLocals
   \<and> cacheLog (snd (downloadStep exampleEnv mapsA exampleLocals mapsWorld))
        = ''maps/a.txt skipped (up to date)'' @ [CHR 0x0A]
   \<and> cacheLog (snd (downloadStep exampleEnv mapsB skippedLocals mapsWorld)) = []
   \<and> cacheLog (snd (downloadStep exampleEnv readme skippedLocals mapsWorld))
        = ''readme.txt skipped (up to date)'' @ [CHR 0x0A]
   \<and> cfgFileListVersion mapsPassWorld \<noteq> Version (cacheFileList mapsPassWorld)
   \<and> Downloads (cacheFileList mapsPassWorld) = [readme] @ mapsA # [mapsB, readme]
   \<and> fst (passAt exampleEnv mapsPassWorld [readme]) = Inr exampleLocals
   \<and> localHash exampleEnv mapsA (snd (passAt exampleEnv mapsPassWorld [readme])) = Some (Md5 mapsA)
   \<and> \<not> mapsSkippedIn exampleEnv [readme] patchLocals (patchStart exampleEnv mapsPassWorld)
   \<and> cacheLog (snd (downloadStep exampleEnv mapsA exampleLocals
                      (snd (passAt exampleEnv mapsPassWorld [readme]))))
        = passHeader @ ''readme.txt skipped (up to date)'' @ [CHR 0x0A]
          @ ''maps/a.txt skipped (up to date)'' @ [CHR 0x0A]
   \<and> Downloads (cacheFileList mapsPassWorld) = [readme, mapsA] @ mapsB # [readme]
   \<and> fst (passAt exampleEnv mapsPassWorld [readme, mapsA]) = Inr skippedLocals
   \<and> localHash exampleEnv mapsB (snd (passAt exampleEnv mapsPassWorld [readme, mapsA]))
        = Some (Md5 mapsB)
   \<and> mapsSkippedIn exampleEnv [readme, mapsA] patchLocals (patchStart exampleEnv mapsPassWorld)
   \<and> cacheLog (snd (downloadStep exampleEnv mapsB skippedLocals
                      (snd (passAt exampleEnv mapsPassWorld [readme, mapsA]))))
        = passHeader @ ''readme.txt skipped (up to date)'' @ [CHR 0x0A]
          @ ''maps/a.txt skipped (up to date)'' @ [CHR 0x0A]
   \<and> cacheLog (snd (patch exampleEnv mapsPassWorld))
        = passHeader @ ''readme.txt skipped (up to date)'' @ [CHR 0x0A]
          @ ''maps/a.txt skipped (up to date)'' @ [CHR 0x0A]
          @ ''readme.txt skipped (up to date)'' @ [CHR 0x0A]"
proof -
  have a: "localHash exampleEnv mapsA mapsWorld = Some (Md5 mapsA)" "isMaps mapsA"
    by code_simp+
  have b: "localHash exampleEnv mapsB mapsWorld = Some (Md5 mapsB)" "isMaps mapsB"
    by code_simp+
  have r: "localHash exampleEnv readme mapsWorld = Some (Md5 readme)" "\<not> isMaps readme"
    by code_simp+
  have w: "cacheLog mapsWorld = []"
    by (simp add: mapsWorld_def exampleWorld_def)
  have n: "Name mapsA = ''maps/a.txt''" "Name mapsB = ''Maps/b.txt''" "Name readme = ''readme.txt''"
    "Size mapsA = 1"
    by (simp_all add: mapsA_def mapsB_def readme_def)
  note t = uptodate_maps_logged_once
  have sa: "fst (downloadStep exampleEnv mapsA exampleLocals mapsWorld) = Inr skippedLocals"
    "cacheLog (snd (downloadStep exampleEnv mapsA exampleLocals mapsWorld))
        = ''maps/a.txt skipped (up to date)'' @ [CHR 0x0A]"
    using t [where E = exampleEnv and entry = mapsA and c = mapsWorld and l = exampleLocals,
        THEN conjunct1] a w n
    by (simp_all add: exampleLocals_def skippedLocals_def)
  have sb: "cacheLog (snd (downloadStep exampleEnv mapsB skippedLocals mapsWorld)) = []"
    using t [where E = exampleEnv and entry = mapsB and c = mapsWorld and l = skippedLocals,
        THEN conjunct1] b w
    by (simp add: skippedLocals_def)
  have sr: "cacheLog (snd (downloadStep exampleEnv readme skippedLocals mapsWorld))
        = ''readme.txt skipped (up to date)'' @ [CHR 0x0A]"
    using t [where E = exampleEnv and entry = readme and c = mapsWorld and l = skippedLocals,
        THEN conjunct1] r w n
    by simp
  have ver: "cfgFileListVersion mapsPassWorld \<noteq> Version (cacheFileList mapsPassWorld)"
    by code_simp
  have d1: "Downloads (cacheFileList mapsPassWorld) = [readme] @ mapsA # [mapsB, readme]"
    and d2: "Downloads (cacheFileList mapsPassWorld) = [readme, mapsA] @ mapsB # [readme]"
    by (simp_all add: mapsPassWorld_def)
  have p1: "fst (passAt exampleEnv mapsPassWorld [readme]) = Inr exampleLocals"
    and h1: "localHash exampleEnv mapsA (snd (passAt exampleEnv mapsPassWorld [readme]))
        = Some (Md5 mapsA)"
    and m1: "\<not> mapsSkippedIn exampleEnv [readme] patchLocals (patchStart exampleEnv mapsPassWorld)"
    and g1: "cacheLog (snd (passAt exampleEnv mapsPassWorld [readme]))
        = passHeader @ ''readme.txt skipped (up to date)'' @ [CHR 0x0A]"
    by code_simp+
  have p2: "fst (passAt exampleEnv mapsPassWorld [readme, mapsA]) = Inr skippedLocals"
    and h2: "localHash exampleEnv mapsB (snd (passAt exampleEnv mapsPassWorld [readme, mapsA]))
        = Some (Md5 mapsB)"
    and m2: "mapsSkippedIn exampleEnv [readme, mapsA] patchLocals (patchStart exampleEnv mapsPassWorld)"
    and g2: "cacheLog (snd (passAt exampleEnv mapsPassWorld [readme, mapsA]))
        = passHeader @ ''readme.txt skipped (up to date)'' @ [CHR 0x0A]
          @ ''maps/a.txt skipped (up to date)'' @ [CHR 0x0A]"
    by code_simp+
  have q1: "passAt exampleEnv mapsPassWorld [readme]
      = (Inr exampleLocals, snd (passAt exampleEnv mapsPassWorld [readme]))"
    using p1 by (cases "passAt exampleEnv mapsPassWorld [readme]") simp
  have q2: "passAt exampleEnv mapsPassWorld [readme, mapsA]
      = (Inr skippedLocals, snd (passAt exampleEnv mapsPassWorld [readme, mapsA]))"
    using p2 by (cases "passAt exampleEnv mapsPassWorld [readme, mapsA]") simp
  have s1: "cacheLog (snd (downloadStep exampleEnv mapsA exampleLocals
                      (snd (passAt exampleEnv mapsPassWorld [readme]))))
        = passHeader @ ''readme.txt skipped (up to date)'' @ [CHR 0x0A]
          @ ''maps/a.txt skipped (up to date)'' @ [CHR 0x0A]"
    using t [where E = exampleEnv and entry = mapsA and w = mapsPassWorld and pre = "[readme]"
        and rest = "[mapsB, readme]" and lp = exampleLocals
        and cp = "snd (passAt exampleEnv mapsPassWorld [readme])",
        THEN conjunct2, THEN conjunct2] ver d1 q1 h1 m1 g1 n
    by simp
  have s2: "cacheLog (snd (downloadStep exampleEnv mapsB skippedLocals
                      (snd (passAt exampleEnv mapsPassWorld [readme, mapsA]))))
        = passHeader @ ''readme.txt skipped (up to date)'' @ [CHR 0x0A]
          @ ''maps/a.txt skipped (up to date)'' @ [CHR 0x0A]"
    using t [where E = exampleEnv and entry = mapsB and w = mapsPassWorld
        and pre = "[readme, mapsA]" and rest = "[readme]" and lp = skippedLocals
        and cp = "snd (passAt exampleEnv mapsPassWorld [readme, mapsA])",
        THEN conjunct2, THEN conjunct2] ver d2 q2 h2 m2 g2 b(2)
    by simp
  have fin: "cacheLog (snd (patch exampleEnv mapsPassWorld))
        = passHeader @ ''readme.txt skipped (up to date)'' @ [CHR 0x0A]
          @ ''maps/a.txt skipped (up to date)'' @ [CHR 0x0A]
          @ ''readme.txt skipped (up to date)'' @ [CHR 0x0A]"
    by code_simp
  show ?thesis
    by (intro conjI a b r sa sb sr ver d1 p1 h1 m1 s1 d2 p2 h2 m2 s2 fin)
qed

text \<open>
  C1, as amended. For an entry whose file is there, the loop body compares the hash that
  \<open>md5Checksum\<close> prints (lower-case hexadecimal) with \<open>entry.Md5\<close> by string equality,
  letter case included. When the two are equal the entry is counted as satisfied: nothing
  is added to \<open>totalDownloaded\<close>, \<open>isPatched\<close> is as before, and no call is made but the
  \<open>MkdirAll\<close> that precedes the comparison (no request, no file created or written).
\<close>

theorem equal_hash_is_satisfied:
  assumes "localHash E entry c = Some hash" and "hash = Md5 entry"
  shows "(\<exists>l1. fst (downloadStep E entry l c) = Inr l1
            \<and> progressSize l1 = progressSize l + Size entry
            \<and> totalDownloaded l1 = totalDownloaded l)
       \<and> isPatched (snd (downloadStep E entry l c)) = isPatched c
       \<and> files (snd (downloadStep E entry l c)) = files (snd (ensureDir E entry c))
       \<and> events (snd (downloadStep E entry l c))
           = events c @ (if Contains (Name entry) ''/'' then [MkdirAll (newPathOf entry)] else [])"
proof -
  from assms have h: "localHash E entry c = Some (Md5 entry)" by simp
  have "\<exists>l1. fst (downloadStep E entry l c) = Inr l1
            \<and> progressSize l1 = progressSize l + Size entry
            \<and> totalDownloaded l1 = totalDownloaded l"
    by (simp add: downloadStep_hash [OF h])
  then show ?thesis
    using downloadStep_equal_frame [OF h, of l] by simp
qed

theorem equal_hash_is_satisfied_witness:
  "localHash caseEnv lowerEntry caseWorld = Some ''900150983cd24fb0d6963f7d28e17f72''
   \<and> ''900150983cd24fb0d6963f7d28e17f72'' = Md5 lowerEntry
   \<and> files caseWorld ''foo.dat'' = Some (File ''abc'')
   \<and> fst (downloadStep caseEnv lowerEntry exampleLocals caseWorld)
        = Inr \<lparr>progressSize = 4, totalDownloaded = 0, isMapsSkippedBefore = False\<rparr>
   \<and> isPatched (snd (downloadStep caseEnv lowerEntry exampleLocals caseWorld)) = False
   \<and> events (snd (downloadStep caseEnv lowerEntry exampleLocals caseWorld)) = []
   \<and> files (snd (downloadStep caseEnv lowerEntry exampleLocals caseWorld)) ''foo.dat''
        = Some (File ''abc'')"
proof -
  have lo: "localHash caseEnv lowerEntry caseWorld = Some ''900150983cd24fb0d6963f7d28e17f72''"
    and eq: "''900150983cd24fb0d6963f7d28e17f72'' = Md5 lowerEntry"
    by code_simp+
  have ed: "snd (ensureDir caseEnv lowerEntry caseWorld) = caseWorld"
    by (simp add: ensureDir_def lowerEntry_def)
  have w: "events caseWorld = []" "isPatched caseWorld = False"
    "files caseWorld ''foo.dat'' = Some (File ''abc'')"
    by (simp_all add: caseWorld_def exampleWorld_def)
  have n: "\<not> Contains (Name lowerEntry) ''/''"
    by (simp add: lowerEntry_def)
  have f: "fst (downloadStep caseEnv lowerEntry exampleLocals caseWorld)
        = Inr \<lparr>progressSize = 4, totalDownloaded = 0, isMapsSkippedBefore = False\<rparr>"
    by code_simp
  have s1: "isPatched (snd (downloadStep caseEnv lowerEntry exampleLocals caseWorld)) = False"
    "events (snd (downloadStep caseEnv lowerEntry exampleLocals caseWorld)) = []"
    "files (snd (downloadStep caseEnv lowerEntry exampleLocals caseWorld)) ''foo.dat''
        = Some (File ''abc'')"
    using equal_hash_is_satisfied [OF lo eq, of exampleLocals] ed w n by simp_all
  show ?thesis
    by (intro conjI lo eq w(3) f s1)
qed

text \<open>When the two differ, the loop body runs \<open>downloadPatchFile\<close> for the entry (which,
  for an entry under \<open>maps/\<close> while the bulk archive has not been fetched, fetches the
  archive and not the entry's own file).\<close>

lemma differing_hash_runs_downloadPatchFile:
  assumes "localHash E entry c = Some hash" and "hash \<noteq> Md5 entry"
  shows "downloadStep E entry l c
              = (case downloadPatchFile E entry (snd (ensureDir E entry c)) of
                   (Some err, c2) \<Rightarrow> (Inl (Wrap ''download new file'' err), c2)
                 | (None, c2) \<Rightarrow>
                     (Inr (l\<lparr>progressSize := progressSize l + Size entry,
                            totalDownloaded := totalDownloaded l + Size entry\<rparr>),
                      c2\<lparr>isPatched := True\<rparr>))"
  using assms(2) by (simp add: downloadStep_hash [OF assms(1)])

text \<open>
  C1, as stated, fails: the file \<open>foo.dat\<close> is there, its MD5 hash equals the entry's
  expected hash up to letter case (the manifest has it in capitals), and yet the loop body
  downloads the file and counts it as downloaded.
\<close>

theorem hash_compare_is_case_sensitive:
  "files caseWorld (Name upperEntry) = Some (File ''abc'')
   \<and> md5Checksum caseEnv (Name upperEntry) caseWorld = Inr ''900150983cd24fb0d6963f7d28e17f72''
   \<and> ToUpper ''900150983cd24fb0d6963f7d28e17f72'' = ToUpper (Md5 upperEntry)
   \<and> fst (downloadStep caseEnv upperEntry exampleLocals caseWorld)
        = Inr \<lparr>progressSize = 4, totalDownloaded = 3, isMapsSkippedBefore = False\<rparr>
   \<and> isPatched (snd (downloadStep caseEnv upperEntry exampleLocals caseWorld))
   \<and> events (snd (downloadStep caseEnv upperEntry exampleLocals caseWorld))
        = [Create ''foo.dat'', HttpGet PatchFile ''http://files.example/rof/foo.dat'', Copy ''foo.dat'']"
  by code_simp

subsection \<open>The download of one file\<close>

lemma os_Create_ok:
  assumes "\<not> createErr E name" and "files c name \<noteq> Some Directory"
  shows "os_Create E name c = (None, (emit (Create name) c)\<lparr>files := (files c)(name \<mapsto> File [])\<rparr>)"
  using assms by (simp add: os_Create_def Let_def)

lemma downloadPatchFile_fails:
  assumes nonmaps: "\<not> isMaps entry"
    and create: "\<not> createErr E (Name entry)" "files c (Name entry) \<noteq> Some Directory"
    and fails: "httpGet E (DownloadPrefix (cacheFileList c) @ ''/'' @ clientVersion c @ ''/'' @ Name entry) = None
       \<or> (\<exists>code body. httpGet E (DownloadPrefix (cacheFileList c) @ ''/'' @ clientVersion c @ ''/'' @ Name entry)
              = Some (Response code body) \<and> code \<noteq> 200)"
  shows "\<exists>err. fst (downloadPatchFile E entry c) = Some err"
    and "files (snd (downloadPatchFile E entry c)) = (files c)(Name entry \<mapsto> File [])"
    and "events (snd (downloadPatchFile E entry c))
           = events c @ [Create (Name entry),
                         HttpGet PatchFile (DownloadPrefix (cacheFileList c) @ ''/'' @ clientVersion c
                                            @ ''/'' @ Name entry)]"
  using assms
  by (auto simp: downloadPatchFile_def isMaps_def os_Create_ok http_Get_def Let_def)

lemma downloadStep_absent:
  assumes "\<not> Contains (Name entry) ''..''" and "fst (ensureDir E entry c) = None"
    and "os_Stat E (Name entry) (snd (ensureDir E entry c)) = StatNotExist"
  shows "downloadStep E entry l c
              = (case downloadPatchFile E entry (snd (ensureDir E entry c)) of
                   (Some err, c2) \<Rightarrow> (Inl (Wrap ''download new file'' err), c2)
                 | (None, c2) \<Rightarrow>
                     (Inr (l\<lparr>progressSize := progressSize l + Size entry,
                            totalDownloaded := totalDownloaded l + Size entry\<rparr>),
                      c2\<lparr>isPatched := True\<rparr>))"
  using assms
  by (cases "ensureDir E entry c")
     (auto simp: downloadStep_def split: prod.splits option.splits)

lemma downloadLoop_abort:
  "fst (downloadStep E entry l c) = Inl err \<Longrightarrow>
     downloadLoop E (entry # rest) l c = (Inl err, snd (downloadStep E entry l c))"
  by (cases "downloadStep E entry l c") simp

lemma patch_abort:
  assumes "cfgFileListVersion c \<noteq> Version (cacheFileList c)"
    and "fst (downloadLoop E (Downloads (cacheFileList c))
            \<lparr>progressSize = 1, totalDownloaded = 0, isMapsSkippedBefore = False\<rparr> c0) = Inl err"
    and "c0 = (if length (Version (cacheFileList c)) < 8
                     then logf (''Total patch size: '' @ generateSize E (sint (totalSizeOf (Downloads (cacheFileList c))))) c
                     else logf (''Total patch size: '' @ generateSize E (sint (totalSizeOf (Downloads (cacheFileList c))))
                                @ '', version: '' @ take 8 (Version (cacheFileList c))) c)"
  shows "fst (patch E c) = Some err"
  using assms
  by (cases "downloadLoop E (Downloads (cacheFileList c))
            \<lparr>progressSize = 1, totalDownloaded = 0, isMapsSkippedBefore = False\<rparr> c0")
     (auto simp: patch_def Let_def)

lemma localHash_is_file:
  assumes "localHash E entry c = Some hash"
  shows "files (snd (ensureDir E entry c)) (Name entry) \<noteq> Some Directory"
  using localHash_SomeD(4) [OF assms]
  by (auto simp: md5Checksum_def split: if_splits)

lemma StatNotExist_no_file:
  "os_Stat E name c = StatNotExist \<Longrightarrow> files c name = None"
  by (auto simp: os_Stat_def split: if_splits option.splits node.splits)

text \<open>
  C10. Take an entry that is not under \<open>maps/\<close> and that the loop body decides to
  download (its file is missing, or is there with another hash), and let creating the file
  succeed. When the request for it fails or is answered with a status other than 200, the
  loop returns the error at this entry (\<open>patch\<close> returns it in turn, see \<open>patch_abort\<close>),
  and it leaves the entry's path holding an empty file, whatever was there before: the
  call \<open>os.Create\<close> comes before the request \<open>client.Get\<close>, and nothing is called after
  the request.
\<close>

theorem download_not_atomic:
  assumes nonmaps: "\<not> isMaps entry"
    and name: "\<not> Contains (Name entry) ''..''"
    and dir: "fst (ensureDir E entry c) = None"
    and needed: "os_Stat E (Name entry) (snd (ensureDir E entry c)) = StatNotExist
       \<or> (\<exists>hash. localHash E entry c = Some hash \<and> hash \<noteq> Md5 entry)"
    and create: "\<not> createErr E (Name entry)"
    and fails: "httpGet E (DownloadPrefix (cacheFileList c) @ ''/'' @ clientVersion c @ ''/'' @ Name entry) = None
       \<or> (\<exists>code body. httpGet E (DownloadPrefix (cacheFileList c) @ ''/'' @ clientVersion c @ ''/'' @ Name entry)
              = Some (Response code body) \<and> code \<noteq> 200)"
  shows "(\<exists>err. fst (downloadLoop E (entry # rest) l c) = Inl (Wrap ''download new file'' err))
       \<and> files (snd (downloadLoop E (entry # rest) l c))
           = (files (snd (ensureDir E entry c)))(Name entry \<mapsto> File [])
       \<and> events (snd (downloadLoop E (entry # rest) l c))
           = events (snd (ensureDir E entry c))
             @ [Create (Name entry),
                HttpGet PatchFile (DownloadPrefix (cacheFileList c) @ ''/'' @ clientVersion c
                                   @ ''/'' @ Name entry)]"
proof -
  let ?c1 = "snd (ensureDir E entry c)"
  let ?res = "case downloadPatchFile E entry ?c1 of
                   (Some err, c2) \<Rightarrow> (Inl (Wrap ''download new file'' err), c2)
                 | (None, c2) \<Rightarrow>
                     (Inr (l\<lparr>progressSize := progressSize l + Size entry,
                            totalDownloaded := totalDownloaded l + Size entry\<rparr>),
                      c2\<lparr>isPatched := True\<rparr>)"
  have both: "downloadStep E entry l c = ?res \<and> files ?c1 (Name entry) \<noteq> Some Directory"
    using needed
  proof
    assume a: "os_Stat E (Name entry) ?c1 = StatNotExist"
    show ?thesis
      using downloadStep_absent [OF name dir a, of l] StatNotExist_no_file [OF a] by simp
  next
    assume "\<exists>hash. localHash E entry c = Some hash \<and> hash \<noteq> Md5 entry"
    then obtain hash where h: "localHash E entry c = Some hash" and ne: "hash \<noteq> Md5 entry"
      by blast
    show ?thesis
      using ne localHash_is_file [OF h] by (simp add: downloadStep_hash [OF h])
  qed
  then have step: "downloadStep E entry l c = ?res"
    and nodir: "files ?c1 (Name entry) \<noteq> Some Directory"
    by simp_all
  have fails1: "httpGet E (DownloadPrefix (cacheFileList ?c1) @ ''/'' @ clientVersion ?c1 @ ''/'' @ Name entry) = None
       \<or> (\<exists>code body. httpGet E (DownloadPrefix (cacheFileList ?c1) @ ''/'' @ clientVersion ?c1 @ ''/'' @ Name entry)
              = Some (Response code body) \<and> code \<noteq> 200)"
    using fails by (simp add: ensureDir_frame)
  note d = downloadPatchFile_fails [OF nonmaps create nodir fails1]
  from d(1) obtain err where err: "fst (downloadPatchFile E entry ?c1) = Some err" ..
  then have s: "downloadStep E entry l c
      = (Inl (Wrap ''download new file'' err), snd (downloadPatchFile E entry ?c1))"
    by (cases "downloadPatchFile E entry ?c1") (simp add: step)
  then have loop: "downloadLoop E (entry # rest) l c
      = (Inl (Wrap ''download new file'' err), snd (downloadPatchFile E entry ?c1))"
    by simp
  show ?thesis
    unfolding loop using d(2,3) by (simp add: ensureDir_frame)
qed

theorem download_not_atomic_witness:
  "\<not> isMaps staleEntry \<and> \<not> Contains (Name staleEntry) ''..''
   \<and> fst (ensureDir notFoundEnv staleEntry caseWorld) = None
   \<and> localHash notFoundEnv staleEntry caseWorld = Some ''900150983cd24fb0d6963f7d28e17f72''
   \<and> ''900150983cd24fb0d6963f7d28e17f72'' \<noteq> Md5 staleEntry
   \<and> \<not> createErr notFoundEnv (Name staleEntry)
   \<and> httpGet notFoundEnv ''http://files.example/rof/foo.dat'' = Some (Response 404 ''gone'')
   \<and> files caseWorld ''foo.dat'' = Some (File ''abc'')
   \<and> fst (downloadLoop notFoundEnv [staleEntry, lowerEntry] exampleLocals caseWorld)
        = Inl (Wrap ''download new file'' (RespondedNot200 ''http://files.example/rof/foo.dat'' 404))
   \<and> files (snd (downloadLoop notFoundEnv [staleEntry, lowerEntry] exampleLocals caseWorld)) ''foo.dat''
        = Some (File [])
   \<and> events (snd (downloadLoop notFoundEnv [staleEntry, lowerEntry] exampleLocals caseWorld))
        = [Create ''foo.dat'', HttpGet PatchFile ''http://files.example/rof/foo.dat'']"
proof -
  have h: "\<not> isMaps staleEntry" "\<not> Contains (Name staleEntry) ''..''"
    "fst (ensureDir notFoundEnv staleEntry caseWorld) = None"
    "\<not> createErr notFoundEnv (Name staleEntry)"
    by code_simp+
  have lh: "localHash notFoundEnv staleEntry caseWorld = Some ''900150983cd24fb0d6963f7d28e17f72''"
    "''900150983cd24fb0d6963f7d28e17f72'' \<noteq> Md5 staleEntry"
    by code_simp+
  then have needed: "os_Stat notFoundEnv (Name staleEntry) (snd (ensureDir notFoundEnv staleEntry caseWorld))
         = StatNotExist
       \<or> (\<exists>hash. localHash notFoundEnv staleEntry caseWorld = Some hash \<and> hash \<noteq> Md5 staleEntry)"
    by blast
  have url: "DownloadPrefix (cacheFileList caseWorld) @ ''/'' @ clientVersion caseWorld @ ''/''
       @ Name staleEntry = ''http://files.example/rof/foo.dat''"
    by (simp add: caseWorld_def exampleWorld_def staleEntry_def)
  have g: "httpGet notFoundEnv ''http://files.example/rof/foo.dat'' = Some (Response 404 ''gone'')"
    by (simp add: notFoundEnv_def exampleEnv_def)
  then have fails: "httpGet notFoundEnv (DownloadPrefix (cacheFileList caseWorld) @ ''/''
         @ clientVersion caseWorld @ ''/'' @ Name staleEntry) = None
       \<or> (\<exists>code body. httpGet notFoundEnv (DownloadPrefix (cacheFileList caseWorld) @ ''/''
              @ clientVersion caseWorld @ ''/'' @ Name staleEntry)
              = Some (Response code body) \<and> code \<noteq> 200)"
    unfolding url by simp
  have ed: "snd (ensureDir notFoundEnv staleEntry caseWorld) = caseWorld"
    by (simp add: ensureDir_def staleEntry_def)
  have w: "files caseWorld ''foo.dat'' = Some (File ''abc'')" "events caseWorld = []"
    by (simp_all add: caseWorld_def exampleWorld_def)
  have n: "Name staleEntry = ''foo.dat''"
    by (simp add: staleEntry_def)
  have e: "fst (downloadLoop notFoundEnv [staleEntry, lowerEntry] exampleLocals caseWorld)
        = Inl (Wrap ''download new file'' (RespondedNot200 ''http://files.example/rof/foo.dat'' 404))"
    by code_simp
  have r: "files (snd (downloadLoop notFoundEnv [staleEntry, lowerEntry] exampleLocals caseWorld)) ''foo.dat''
        = Some (File [])"
    "events (snd (downloadLoop notFoundEnv [staleEntry, lowerEntry] exampleLocals caseWorld))
        = [Create ''foo.dat'', HttpGet PatchFile ''http://files.example/rof/foo.dat'']"
    using download_not_atomic [OF h(1) h(2) h(3) needed h(4) fails, of "[lowerEntry]" exampleLocals]
    unfolding url ed by (simp_all add: w n)
  show ?thesis
    using h lh g w(1) e r by simp
qed

subsection \<open>The bulk archive\<close>

lemma bulkFetches_simps [simp]:
  "bulkFetches (emit ev c) = bulkFetches c + (if isBulkFetch ev then 1 else 0)"
  "bulkFetches (logf t c) = bulkFetches c"
  "bulkFetches (c\<lparr>files := f\<rparr>) = bulkFetches c"
  "bulkFetches (c\<lparr>isPatched := b\<rparr>) = bulkFetches c"
  "bulkFetches (c\<lparr>isMapsDownloaded := b\<rparr>) = bulkFetches c"
  "bulkFetches (c\<lparr>cfgFileListVersion := v\<rparr>) = bulkFetches c"
  "bulkFetches (c\<lparr>savedVersion := v\<rparr>) = bulkFetches c"
  "bulkFetches (c\<lparr>patchSummary := v\<rparr>) = bulkFetches c"
  by (simp_all add: bulkFetches_def)

lemma os_MkdirAll_keeps:
  "os_MkdirAll E p c = (r, c1) \<Longrightarrow>
     bulkFetches c1 = bulkFetches c \<and> isMapsDownloaded c1 = isMapsDownloaded c"
  by (auto simp: os_MkdirAll_def Let_def split: if_splits)

lemma os_Create_keeps:
  "os_Create E p c = (r, c1) \<Longrightarrow>
     bulkFetches c1 = bulkFetches c \<and> isMapsDownloaded c1 = isMapsDownloaded c"
  by (auto simp: os_Create_def Let_def split: if_splits)

lemma os_OpenFile_keeps:
  "os_OpenFile E p c = (r, c1) \<Longrightarrow>
     bulkFetches c1 = bulkFetches c \<and> isMapsDownloaded c1 = isMapsDownloaded c"
  by (auto simp: os_OpenFile_def Let_def split: if_splits)

lemma io_Copy_keeps:
  "io_Copy E p body c = (r, c1) \<Longrightarrow>
     bulkFetches c1 = bulkFetches c \<and> isMapsDownloaded c1 = isMapsDownloaded c"
  by (auto simp: io_Copy_def Let_def split: option.splits)

lemma os_Remove_keeps:
  "os_Remove E p c = (rr, c1) \<Longrightarrow>
     bulkFetches c1 = bulkFetches c \<and> isMapsDownloaded c1 = isMapsDownloaded c"
  by (auto simp: os_Remove_def Let_def split: option.splits)

lemma cfg_Save_keeps:
  "cfg_Save E c = (rs, c1) \<Longrightarrow>
     bulkFetches c1 = bulkFetches c \<and> isMapsDownloaded c1 = isMapsDownloaded c"
  by (auto simp: cfg_Save_def Let_def split: option.splits)

lemma unpackFile_keeps:
  "unpackFile E dstDir f c = (r, c1) \<Longrightarrow>
     bulkFetches c1 = bulkFetches c \<and> isMapsDownloaded c1 = isMapsDownloaded c"
  unfolding unpackFile_def Let_def
  by (auto split: if_splits prod.splits option.splits
      dest!: os_MkdirAll_keeps os_OpenFile_keeps io_Copy_keeps)

lemma unpackFiles_keeps:
  "unpackFiles E dstDir fs c = (r, c1) \<Longrightarrow>
     bulkFetches c1 = bulkFetches c \<and> isMapsDownloaded c1 = isMapsDownloaded c"
proof (induction fs arbitrary: c)
  case Nil
  then show ?case by simp
next
  case (Cons f fs)
  obtain r0 c0 where u: "unpackFile E dstDir f c = (r0, c0)"
    by (cases "unpackFile E dstDir f c")
  note k = unpackFile_keeps [OF u]
  show ?case
  proof (cases r0)
    case None
    with Cons.prems u have "unpackFiles E dstDir fs c0 = (r, c1)" by simp
    from Cons.IH [OF this] k show ?thesis by simp
  next
    case (Some err)
    with Cons.prems u have "c1 = c0" by simp
    with k show ?thesis by simp
  qed
qed

lemma unpack_keeps:
  "unpack E srcFile dstDir c = (r, c1) \<Longrightarrow>
     bulkFetches c1 = bulkFetches c \<and> isMapsDownloaded c1 = isMapsDownloaded c"
  unfolding unpack_def Let_def
  by (auto split: if_splits option.splits dest!: unpackFiles_keeps)

lemma http_Get_keeps:
  "http_Get E ep url c = (r, c1) \<Longrightarrow>
     bulkFetches c1 = bulkFetches c + (if ep = MapsZip then 1 else 0)
     \<and> isMapsDownloaded c1 = isMapsDownloaded c"
  by (cases ep) (auto simp: http_Get_def)

lemma downloadPatchFile_bulk:
  assumes "downloadPatchFile E entry c = (r, c1)"
  shows "bulkFetches c1
           = bulkFetches c + (if \<not> isMapsDownloaded c \<and> isMaps entry then 1 else 0)
       \<and> (isMapsDownloaded c \<longrightarrow> isMapsDownloaded c1)
       \<and> (r = None \<and> isMaps entry \<longrightarrow> isMapsDownloaded c1)"
proof (cases "\<not> isMapsDownloaded c \<and> isMaps entry")
  case True
  then show ?thesis
    using assms unfolding downloadPatchFile_def isMaps_def Let_def
    by (auto split: if_splits prod.splits option.splits response.splits
        dest!: http_Get_keeps os_Create_keeps io_Copy_keeps unpack_keeps)
next
  case False
  then show ?thesis
    using assms unfolding downloadPatchFile_def isMaps_def Let_def
    by (auto split: if_splits prod.splits option.splits response.splits
        dest!: http_Get_keeps os_Create_keeps io_Copy_keeps)
qed

lemma ensureDir_keeps:
  "ensureDir E entry c = (r, c1) \<Longrightarrow>
     bulkFetches c1 = bulkFetches c \<and> isMapsDownloaded c1 = isMapsDownloaded c"
  unfolding ensureDir_def by (auto split: if_splits dest!: os_MkdirAll_keeps)

lemma downloadStep_shape:
  assumes "downloadStep E entry l c = (r, c1)"
  shows "(\<exists>t. c1 = logf t c)
       \<or> (\<exists>r0 c0. ensureDir E entry c = (r0, c0)
             \<and> (c1 = c0 \<or> (\<exists>t. c1 = logf t c0)
                \<or> (\<exists>e c2. downloadPatchFile E entry c0 = (Some e, c2) \<and> c1 = c2
                       \<and> r = Inl (Wrap ''download new file'' e))
                \<or> (\<exists>c2. downloadPatchFile E entry c0 = (None, c2)
                       \<and> c1 = c2\<lparr>isPatched := True\<rparr>)))"
proof (cases "Contains (Name entry) ''..''")
  case True
  with assms show ?thesis by (auto simp: downloadStep_def)
next
  case False
  obtain r0 c0 where ed: "ensureDir E entry c = (r0, c0)"
    by (cases "ensureDir E entry c")
  obtain rd cd where dl: "downloadPatchFile E entry c0 = (rd, cd)"
    by (cases "downloadPatchFile E entry c0")
  show ?thesis
  proof (cases r0)
    case (Some err)
    with assms False ed show ?thesis by (simp add: downloadStep_def)
  next
    case None
    show ?thesis
    proof (cases "os_Stat E (Name entry) c0")
      case StatNotExist
      with assms False ed None dl show ?thesis
        by (cases rd) (auto simp: downloadStep_def)
    next
      case StatErr
      with assms False ed None show ?thesis by (simp add: downloadStep_def)
    next
      case (StatOk d)
      show ?thesis
      proof (cases "md5Checksum E (Name entry) c0")
        case (Inl err)
        with assms False ed None StatOk show ?thesis by (simp add: downloadStep_def)
      next
        case (Inr hash)
        show ?thesis
        proof (cases "hash = Md5 entry")
          case True
          with assms False ed None StatOk Inr show ?thesis
            by (auto simp: downloadStep_def Let_def split: if_splits)
        next
          case ne: False
          with assms False ed None StatOk Inr dl show ?thesis
            by (cases rd) (auto simp: downloadStep_def)
        qed
      qed
    qed
  qed
qed

lemma bulkBound_simps [simp]:
  "bulkBound (logf t c) = bulkBound c"
  "bulkBound (c\<lparr>isPatched := b\<rparr>) = bulkBound c"
  by (simp_all add: bulkBound_def)

lemma bulkFetches_le_bulkBound: "bulkFetches c \<le> bulkBound c"
  by (simp add: bulkBound_def)

lemma ensureDir_bulkBound:
  "ensureDir E entry c = (r, c1) \<Longrightarrow> bulkBound c1 = bulkBound c \<and> bulkFetches c1 = bulkFetches c"
  by (auto simp: bulkBound_def dest!: ensureDir_keeps)

lemma downloadPatchFile_bulkBound:
  assumes "downloadPatchFile E entry c = (r, c1)"
  shows "bulkFetches c \<le> bulkFetches c1" and "bulkFetches c1 \<le> bulkBound c"
    and "r = None \<Longrightarrow> bulkBound c1 \<le> bulkBound c"
  using downloadPatchFile_bulk [OF assms]
  by (auto simp: bulkBound_def split: if_splits)

lemma downloadStep_bulk:
  assumes "downloadStep E entry l c = (r, c1)"
  shows "bulkFetches c \<le> bulkFetches c1 \<and> bulkFetches c1 \<le> bulkBound c
       \<and> ((\<exists>l1. r = Inr l1) \<longrightarrow> bulkBound c1 \<le> bulkBound c)"
  using downloadStep_shape [OF assms]
proof (elim disjE exE conjE)
  fix t assume "c1 = logf t c"
  then show ?thesis by (simp add: bulkFetches_le_bulkBound)
next
  fix r0 c0 assume ed: "ensureDir E entry c = (r0, c0)" and "c1 = c0"
  then show ?thesis
    using ensureDir_bulkBound [OF ed] bulkFetches_le_bulkBound [of c] by simp
next
  fix r0 c0 t assume ed: "ensureDir E entry c = (r0, c0)" and "c1 = logf t c0"
  then show ?thesis
    using ensureDir_bulkBound [OF ed] bulkFetches_le_bulkBound [of c] by simp
next
  fix r0 c0 e c2
  assume ed: "ensureDir E entry c = (r0, c0)"
    and dl: "downloadPatchFile E entry c0 = (Some e, c2)"
    and c1: "c1 = c2" and r: "r = Inl (Wrap ''download new file'' e)"
  show ?thesis
    using ensureDir_bulkBound [OF ed] downloadPatchFile_bulkBound(1,2) [OF dl] c1 r by simp
next
  fix r0 c0 c2
  assume ed: "ensureDir E entry c = (r0, c0)"
    and dl: "downloadPatchFile E entry c0 = (None, c2)"
    and c1: "c1 = c2\<lparr>isPatched := True\<rparr>"
  show ?thesis
    using ensureDir_bulkBound [OF ed] downloadPatchFile_bulkBound [OF dl] c1 by simp
qed

lemma downloadLoop_bulk:
  "downloadLoop E entries l c = (r, c1) \<Longrightarrow>
     bulkFetches c \<le> bulkFetches c1 \<and> bulkFetches c1 \<le> bulkBound c"
proof (induction entries arbitrary: l c)
  case Nil
  then show ?case by (simp add: bulkFetches_le_bulkBound)
next
  case (Cons entry rest)
  obtain r0 c0 where st: "downloadStep E entry l c = (r0, c0)"
    by (cases "downloadStep E entry l c")
  note b = downloadStep_bulk [OF st]
  show ?case
  proof (cases r0)
    case (Inl err)
    with Cons.prems st have "c1 = c0" by simp
    with b show ?thesis by simp
  next
    case (Inr l1)
    with Cons.prems st have "downloadLoop E rest l1 c0 = (r, c1)" by simp
    from Cons.IH [OF this] b Inr show ?thesis by auto
  qed
qed

lemma deleteStep_keeps:
  "deleteStep E entry c = (r, c1) \<Longrightarrow> bulkFetches c1 = bulkFetches c"
  unfolding deleteStep_def
  by (auto split: if_splits statResult.splits prod.splits removeResult.splits
      dest!: os_Remove_keeps)

lemma deleteLoop_keeps:
  "deleteLoop E entries c = (r, c1) \<Longrightarrow> bulkFetches c1 = bulkFetches c"
proof (induction entries arbitrary: c)
  case Nil
  then show ?case by simp
next
  case (Cons entry rest)
  obtain r0 c0 where st: "deleteStep E entry c = (r0, c0)"
    by (cases "deleteStep E entry c")
  note k = deleteStep_keeps [OF st]
  show ?case
  proof (cases r0)
    case None
    with Cons.prems st have "deleteLoop E rest c0 = (r, c1)" by simp
    from Cons.IH [OF this] k show ?thesis by simp
  next
    case (Some err)
    with Cons.prems st have "c1 = c0" by simp
    with k show ?thesis by simp
  qed
qed

lemma patch_bulk:
  "bulkFetches c \<le> bulkFetches (snd (patch E c)) \<and> bulkFetches (snd (patch E c)) \<le> bulkBound c"
proof (cases "cfgFileListVersion c = Version (cacheFileList c)")
  case True
  then show ?thesis by (simp add: patch_def Let_def bulkFetches_le_bulkBound)
next
  case False
  define c0 where "c0 = (if length (Version (cacheFileList c)) < 8
      then logf (''Total patch size: ''
                 @ generateSize E (sint (totalSizeOf (Downloads (cacheFileList c))))) c
      else logf (''Total patch size: ''
                 @ generateSize E (sint (totalSizeOf (Downloads (cacheFileList c))))
                 @ '', version: '' @ take 8 (Version (cacheFileList c))) c)"
  have c0: "bulkFetches c0 = bulkFetches c" "bulkBound c0 = bulkBound c"
    by (simp_all add: c0_def)
  obtain r1 c1 where dl: "downloadLoop E (Downloads (cacheFileList c))
      \<lparr>progressSize = 1, totalDownloaded = 0, isMapsSkippedBefore = False\<rparr> c0 = (r1, c1)"
    by (cases "downloadLoop E (Downloads (cacheFileList c))
      \<lparr>progressSize = 1, totalDownloaded = 0, isMapsSkippedBefore = False\<rparr> c0")
  note b1 = downloadLoop_bulk [OF dl]
  obtain r2 c2 where de: "deleteLoop E (Deletes (cacheFileList c)) c1 = (r2, c2)"
    by (cases "deleteLoop E (Deletes (cacheFileList c)) c1")
  note b2 = deleteLoop_keeps [OF de]
  obtain r3 c3 where sv: "cfg_Save E (c2\<lparr>cfgFileListVersion := Version (cacheFileList c)\<rparr>) = (r3, c3)"
    by (cases "cfg_Save E (c2\<lparr>cfgFileListVersion := Version (cacheFileList c)\<rparr>)")
  have b3: "bulkFetches c3 = bulkFetches c2"
    using cfg_Save_keeps [OF sv] by simp
  have "bulkFetches (snd (patch E c)) = bulkFetches c1"
    using False dl de sv b2 b3
    by (cases r1; cases r2; cases r3) (simp_all add: patch_def Let_def c0_def [symmetric])
  with b1 c0 show ?thesis by simp
qed

text \<open>
  C5. Whatever the manifest, one run of \<open>patch\<close> requests the bulk archive \<open>maps.zip\<close>
  at most once, and not at all when \<open>isMapsDownloaded\<close> is set at its start; the same holds
  for the download loop from any state and any list of entries. A call of
  \<open>downloadPatchFile\<close> that requests the archive and returns without error (the archive
  fetched and expanded) leaves \<open>isMapsDownloaded\<close> set, so no later entry requests it again.
\<close>

theorem bulk_archive_fetched_at_most_once:
  "bulkFetches (snd (patch E c)) \<le> bulkFetches c + 1
   \<and> (isMapsDownloaded c \<longrightarrow> bulkFetches (snd (patch E c)) = bulkFetches c)
   \<and> bulkFetches (snd (downloadLoop E entries l c)) \<le> bulkFetches c + 1
   \<and> (isMapsDownloaded c \<longrightarrow> bulkFetches (snd (downloadLoop E entries l c)) = bulkFetches c)
   \<and> (fst (downloadPatchFile E entry c) = None
        \<and> bulkFetches (snd (downloadPatchFile E entry c)) \<noteq> bulkFetches c \<longrightarrow>
      isMapsDownloaded (snd (downloadPatchFile E entry c)))"
proof -
  have bound: "bulkBound c \<le> bulkFetches c + 1"
    "isMapsDownloaded c \<Longrightarrow> bulkBound c = bulkFetches c"
    by (simp_all add: bulkBound_def)
  obtain r1 c1 where dl: "downloadLoop E entries l c = (r1, c1)"
    by (cases "downloadLoop E entries l c")
  obtain r2 c2 where dp: "downloadPatchFile E entry c = (r2, c2)"
    by (cases "downloadPatchFile E entry c")
  show ?thesis
    using patch_bulk [of c E] downloadLoop_bulk [OF dl] downloadPatchFile_bulk [OF dp] bound dl dp
    by (auto split: if_splits)
qed

theorem bulk_archive_fetched_at_most_once_witness:
  "bulkFetches mapsZipWorld = 0 \<and> \<not> isMapsDownloaded mapsZipWorld
   \<and> fst (patch mapsZipEnv mapsZipWorld) = None
   \<and> bulkFetches (snd (patch mapsZipEnv mapsZipWorld)) = 1
   \<and> events (snd (patch mapsZipEnv mapsZipWorld))
        = [MkdirAll ''maps/'', HttpGet MapsZip ''http://patch.example/maps.zip'', Create ''maps.zip'',
           Copy ''maps.zip'', MkdirAll ''maps'', OpenFile ''maps/a.txt'', Copy ''maps/a.txt'',
           MkdirAll ''maps/'', Create ''maps/b.txt'',
           HttpGet PatchFile ''http://files.example/rof/maps/b.txt'', Copy ''maps/b.txt'',
           MkdirAll ''Maps/'', Create ''Maps/c.txt'',
           HttpGet PatchFile ''http://files.example/rof/Maps/c.txt'', Copy ''Maps/c.txt'',
           Save ''abc12345'']
   \<and> isMapsDownloaded (snd (patch mapsZipEnv mapsZipWorld))
   \<and> bulkFetches (snd (patch mapsZipEnv (mapsZipWorld\<lparr>isMapsDownloaded := True\<rparr>))) = 0"
proof -
  have a: "bulkFetches mapsZipWorld = 0" "\<not> isMapsDownloaded mapsZipWorld"
    "fst (patch mapsZipEnv mapsZipWorld) = None"
    "isMapsDownloaded (snd (patch mapsZipEnv mapsZipWorld))"
    by code_simp+
  have ev: "events (snd (patch mapsZipEnv mapsZipWorld))
        = [MkdirAll ''maps/'', HttpGet MapsZip ''http://patch.example/maps.zip'', Create ''maps.zip'',
           Copy ''maps.zip'', MkdirAll ''maps'', OpenFile ''maps/a.txt'', Copy ''maps/a.txt'',
           MkdirAll ''maps/'', Create ''maps/b.txt'',
           HttpGet PatchFile ''http://files.example/rof/maps/b.txt'', Copy ''maps/b.txt'',
           MkdirAll ''Maps/'', Create ''Maps/c.txt'',
           HttpGet PatchFile ''http://files.example/rof/Maps/c.txt'', Copy ''Maps/c.txt'',
           Save ''abc12345'']"
    by code_simp
  have one: "1 \<le> bulkFetches (snd (patch mapsZipEnv mapsZipWorld))"
    by (simp add: bulkFetches_def ev)
  have b: "bulkFetches (mapsZipWorld\<lparr>isMapsDownloaded := True\<rparr>) = 0"
    using a(1) by simp
  have "bulkFetches (snd (patch mapsZipEnv mapsZipWorld)) = 1"
    using bulk_archive_fetched_at_most_once [of mapsZipEnv mapsZipWorld] a(1) one by simp
  moreover have "bulkFetches (snd (patch mapsZipEnv (mapsZipWorld\<lparr>isMapsDownloaded := True\<rparr>))) = 0"
    using bulk_archive_fetched_at_most_once [of mapsZipEnv "mapsZipWorld\<lparr>isMapsDownloaded := True\<rparr>"] b
    by simp
  ultimately show ?thesis
    using a ev by simp
qed

subsection \<open>unpack\<close>

lemma unpackFile_writes:
  assumes "\<not> zIsDir f"
    and "os_MkdirAll E (Dir (Join [dstDir, zName f])) c = (None, c1)"
    and "\<not> createErr E (Join [dstDir, zName f])"
    and "files c1 (Join [dstDir, zName f]) \<noteq> Some Directory"
    and "\<not> zOpenErr f"
    and "copyErr E (Join [dstDir, zName f]) = None"
  shows "fst (unpackFile E dstDir f c) = None"
    and "files (snd (unpackFile E dstDir f c)) = (files c1)(Join [dstDir, zName f] \<mapsto> File (zData f))"
    and "events (snd (unpackFile E dstDir f c))
           = events c1 @ [OpenFile (Join [dstDir, zName f]), Copy (Join [dstDir, zName f])]"
  using assms
  by (simp_all add: unpackFile_def os_OpenFile_def io_Copy_def Let_def)

text \<open>
  C9. \<open>unpack\<close> writes an archive entry that is not a directory to
  \<open>filepath.Join(dstDir, f.Name)\<close>, whatever the name is: when the calls succeed, the file
  at that path holds the entry's content afterwards. No test for \<open>..\<close> guards it. For the
  archive whose one entry is named \<open>../evil.txt\<close>, unpacking into \<open>.\<close> writes the file
  \<open>../evil.txt\<close>, outside the directory; and \<open>patch\<close>, given a manifest with an entry
  under \<open>maps/\<close> and a server with that archive, writes it too.
\<close>

theorem unpack_does_not_check_names:
  "(\<not> zIsDir f
      \<and> fst (os_MkdirAll E (Dir (Join [dstDir, zName f])) c) = None
      \<and> \<not> createErr E (Join [dstDir, zName f])
      \<and> files (snd (os_MkdirAll E (Dir (Join [dstDir, zName f])) c)) (Join [dstDir, zName f])
            \<noteq> Some Directory
      \<and> \<not> zOpenErr f
      \<and> copyErr E (Join [dstDir, zName f]) = None \<longrightarrow>
    fst (unpackFile E dstDir f c) = None
    \<and> files (snd (unpackFile E dstDir f c)) (Join [dstDir, zName f]) = Some (File (zData f)))
   \<and> ''..'' \<in> set (splitSep (zName evilFile))
   \<and> zipRead evilEnv ''PK'' = Some [evilFile]
   \<and> Join [''.'', zName evilFile] = ''../evil.txt''
   \<and> outsideDir ''../evil.txt''
   \<and> files evilZipWorld ''../evil.txt'' = None
   \<and> fst (unpack evilEnv ''maps.zip'' ''.'' evilZipWorld) = None
   \<and> files (snd (unpack evilEnv ''maps.zip'' ''.'' evilZipWorld)) ''../evil.txt'' = Some (File ''x'')
   \<and> fst (patch evilEnv evilManifestWorld) = None
   \<and> files (snd (patch evilEnv evilManifestWorld)) ''../evil.txt'' = Some (File ''x'')"
proof (intro conjI impI)
  assume a: "\<not> zIsDir f
      \<and> fst (os_MkdirAll E (Dir (Join [dstDir, zName f])) c) = None
      \<and> \<not> createErr E (Join [dstDir, zName f])
      \<and> files (snd (os_MkdirAll E (Dir (Join [dstDir, zName f])) c)) (Join [dstDir, zName f])
            \<noteq> Some Directory
      \<and> \<not> zOpenErr f
      \<and> copyErr E (Join [dstDir, zName f]) = None"
  obtain c1 where m: "os_MkdirAll E (Dir (Join [dstDir, zName f])) c = (None, c1)"
    using a by (cases "os_MkdirAll E (Dir (Join [dstDir, zName f])) c") auto
  with a have b: "\<not> zIsDir f" "\<not> createErr E (Join [dstDir, zName f])"
    "files c1 (Join [dstDir, zName f]) \<noteq> Some Directory" "\<not> zOpenErr f"
    "copyErr E (Join [dstDir, zName f]) = None"
    by simp_all
  show "fst (unpackFile E dstDir f c) = None"
    by (rule unpackFile_writes [OF b(1) m b(2-5)])
  show "files (snd (unpackFile E dstDir f c)) (Join [dstDir, zName f]) = Some (File (zData f))"
    by (simp add: unpackFile_writes(2) [OF b(1) m b(2-5)])
qed code_simp+

theorem unpack_does_not_check_names_witness:
  "\<not> zIsDir evilFile
   \<and> fst (os_MkdirAll evilEnv (Dir (Join [''.'', zName evilFile])) evilZipWorld) = None
   \<and> \<not> createErr evilEnv (Join [''.'', zName evilFile])
   \<and> files (snd (os_MkdirAll evilEnv (Dir (Join [''.'', zName evilFile])) evilZipWorld))
        (Join [''.'', zName evilFile]) = None
   \<and> \<not> zOpenErr evilFile
   \<and> copyErr evilEnv (Join [''.'', zName evilFile]) = None
   \<and> Join [''.'', zName evilFile] = ''../evil.txt''
   \<and> fst (unpackFile evilEnv ''.'' evilFile evilZipWorld) = None
   \<and> files (snd (unpackFile evilEnv ''.'' evilFile evilZipWorld)) ''../evil.txt'' = Some (File ''x'')"
proof -
  have h: "\<not> zIsDir evilFile"
    "fst (os_MkdirAll evilEnv (Dir (Join [''.'', zName evilFile])) evilZipWorld) = None"
    "\<not> createErr evilEnv (Join [''.'', zName evilFile])"
    "files (snd (os_MkdirAll evilEnv (Dir (Join [''.'', zName evilFile])) evilZipWorld))
        (Join [''.'', zName evilFile]) = None"
    "\<not> zOpenErr evilFile"
    "copyErr evilEnv (Join [''.'', zName evilFile]) = None"
    by code_simp+
  have j: "Join [''.'', zName evilFile] = ''../evil.txt''" "zData evilFile = ''x''"
    by code_simp+
  have "fst (unpackFile evilEnv ''.'' evilFile evilZipWorld) = None
    \<and> files (snd (unpackFile evilEnv ''.'' evilFile evilZipWorld)) (Join [''.'', zName evilFile])
        = Some (File (zData evilFile))"
  proof (rule unpack_does_not_check_names [of evilFile evilEnv "''.''" evilZipWorld,
        THEN conjunct1, THEN mp])
    show "\<not> zIsDir evilFile
      \<and> fst (os_MkdirAll evilEnv (Dir (Join [''.'', zName evilFile])) evilZipWorld) = None
      \<and> \<not> createErr evilEnv (Join [''.'', zName evilFile])
      \<and> files (snd (os_MkdirAll evilEnv (Dir (Join [''.'', zName evilFile])) evilZipWorld))
            (Join [''.'', zName evilFile]) \<noteq> Some Directory
      \<and> \<not> zOpenErr evilFile
      \<and> copyErr evilEnv (Join [''.'', zName evilFile]) = None"
      by (intro conjI h) (simp only: h(4), simp)
  qed
  then have "fst (unpackFile evilEnv ''.'' evilFile evilZipWorld) = None"
    "files (snd (unpackFile evilEnv ''.'' evilFile evilZipWorld)) ''../evil.txt'' = Some (File ''x'')"
    unfolding j by simp_all
  then show ?thesis
    by (intro conjI h j)
qed

subsection \<open>selfUpdate\<close>

text \<open>The value \<open>remoteHash\<close> is in capitals when it is compared with \<open>Not Found\<close>, so the
  two are never equal.\<close>

lemma toUpperChar_not_lower: "toUpperChar ch \<notin> set lowerLetters"
  by (simp add: toUpperChar_def lowerLetters_def upperLetters_def)

lemma ToUpper_not_sentinel: "ToUpper s \<noteq> ''Not Found''"
proof
  assume "ToUpper s = ''Not Found''"
  then have "CHR ''o'' \<in> set (ToUpper s)" by simp
  then obtain ch where "toUpperChar ch = CHR ''o''" by (auto simp: ToUpper_def)
  moreover have "CHR ''o'' \<in> set lowerLetters" by (simp add: lowerLetters_def)
  ultimately show False using toUpperChar_not_lower [of ch] by simp
qed

lemma removeLeftover_frame:
  "events (removeLeftover E name shown c) = events c @ [Remove name]"
  "files (removeLeftover E name shown c) x
     = (if x = name \<and> removeErr E name = None then None else files c x)"
  "baseName (removeLeftover E name shown c) = baseName c"
  "patcherUrl (removeLeftover E name shown c) = patcherUrl c"
  by (auto simp: removeLeftover_def os_Remove_def Let_def split: option.splits)

lemma selfUpdate_equal:
  assumes "reachesCompare E c exe content body"
    and "ToUpper (TrimSpace (hexString (md5Sum E content))) = ToUpper (TrimSpace body)"
  shows "fst (selfUpdate E c) = None"
    and "events (snd (selfUpdate E c)) = events c @ cleanupCalls c @ [HttpGet HashTxt (hashUrl c)]"
    and "files (snd (selfUpdate E c)) exe = Some (File content)"
  using assms
  by (simp_all add: reachesCompare_def selfUpdate_def Let_def md5Checksum_def removeLeftover_frame
      http_Get_def hashUrl_def cleanupCalls_def ToUpper_not_sentinel)

lemma selfUpdate_differ:
  assumes "reachesCompare E c exe content body"
    and "ToUpper (TrimSpace (hexString (md5Sum E content))) \<noteq> ToUpper (TrimSpace body)"
  shows "events (snd (selfUpdate E c))
           = events c @ cleanupCalls c
             @ [HttpGet HashTxt (hashUrl c), HttpGet SelfExe (exeUrl c)] @ applyCalls E c"
    and "httpGet E (exeUrl c) = Some (Response 200 body2) \<Longrightarrow> applyErr E = False \<Longrightarrow>
           fst (selfUpdate E c) = None \<and> files (snd (selfUpdate E c)) exe = Some (File body2)"
    and "httpGet E (exeUrl c) = None \<or> (\<exists>code b. httpGet E (exeUrl c) = Some (Response code b) \<and> code \<noteq> 200)
           \<Longrightarrow> fst (selfUpdate E c) \<noteq> None \<and> files (snd (selfUpdate E c)) exe = Some (File content)"
  using assms
  by (auto simp: reachesCompare_def selfUpdate_def Let_def md5Checksum_def removeLeftover_frame
      http_Get_def hashUrl_def exeUrl_def cleanupCalls_def applyCalls_def ToUpper_not_sentinel
      selfupdate_Apply_def split: option.splits response.splits)

lemma hexDigit_in: "n < 16 \<Longrightarrow> hexDigit n \<in> set ''0123456789abcdef''"
  unfolding hexDigit_def by (rule nth_mem) simp

lemma hexByte_chars: "set (hexByte b) \<subseteq> set ''0123456789abcdef''"
proof -
  define S where "S = set ''0123456789abcdef''"
  have "unat b < 2 ^ LENGTH(8)" by (rule unsigned_less)
  then have "unat b < 256" by simp
  then have d: "unat b div 16 < 16" and m: "unat b mod 16 < 16" by simp_all
  have "hexDigit (unat b div 16) \<in> S" "hexDigit (unat b mod 16) \<in> S"
    unfolding S_def by (rule hexDigit_in [OF d], rule hexDigit_in [OF m])
  then have "set (hexByte b) \<subseteq> S"
    unfolding hexByte_def by simp
  then show ?thesis unfolding S_def .
qed

lemma hexString_chars: "set (hexString bs) \<subseteq> set ''0123456789abcdef''"
proof
  fix x assume "x \<in> set (hexString bs)"
  then obtain b where "x \<in> set (hexByte b)"
    unfolding hexString_def by auto
  then show "x \<in> set ''0123456789abcdef''"
    using hexByte_chars [of b] by (rule rev_subsetD)
qed

lemma TrimSpace_subset: "set (TrimSpace s) \<subseteq> set s"
proof
  fix x assume "x \<in> set (TrimSpace s)"
  then have "x \<in> set (dropWhile isSpace (rev (dropWhile isSpace s)))"
    by (simp add: TrimSpace_def)
  then have "x \<in> set (rev (dropWhile isSpace s))" by (rule set_dropWhileD)
  then have "x \<in> set (dropWhile isSpace s)" by simp
  then show "x \<in> set s" by (rule set_dropWhileD)
qed

lemma hash_not_sentinel: "ToUpper (TrimSpace (hexString bs)) \<noteq> ''NOT FOUND''"
proof
  assume "ToUpper (TrimSpace (hexString bs)) = ''NOT FOUND''"
  then have "CHR ''N'' \<in> set (ToUpper (TrimSpace (hexString bs)))" by simp
  then obtain ch where ch: "ch \<in> set (TrimSpace (hexString bs))" and up: "toUpperChar ch = CHR ''N''"
    by (auto simp: ToUpper_def)
  from ch have "ch \<in> set ''0123456789abcdef''"
    using TrimSpace_subset hexString_chars by blast
  with up show False
    by (auto simp: toUpperChar_def lowerLetters_def upperLetters_def)
qed

text \<open>
  C4. When \<open>selfUpdate\<close> gets to compare the two hashes, each trimmed and put in
  capitals: if they are equal it returns \<open>nil\<close>, having made no request for the executable
  and no call of \<open>selfupdate.Apply\<close> (the calls made are the two removals and the request
  for the hash), and the executable's file is as before. If they differ, it makes exactly
  one request for the executable; when the answer has status 200, \<open>selfupdate.Apply\<close> is
  called once, with the body, and when that succeeds \<open>selfUpdate\<close> returns \<open>nil\<close> and the
  executable's file holds the body.
\<close>

theorem selfUpdate_gate:
  assumes "reachesCompare E c exe content body"
  shows "(ToUpper (TrimSpace (hexString (md5Sum E content))) = ToUpper (TrimSpace body) \<longrightarrow>
            fst (selfUpdate E c) = None
            \<and> events (snd (selfUpdate E c))
                = events c @ cleanupCalls c @ [HttpGet HashTxt (hashUrl c)]
            \<and> files (snd (selfUpdate E c)) exe = Some (File content))
       \<and> (ToUpper (TrimSpace (hexString (md5Sum E content))) \<noteq> ToUpper (TrimSpace body) \<longrightarrow>
            events (snd (selfUpdate E c))
                = events c @ cleanupCalls c
                  @ [HttpGet HashTxt (hashUrl c), HttpGet SelfExe (exeUrl c)] @ applyCalls E c
            \<and> (\<forall>body2. httpGet E (exeUrl c) = Some (Response 200 body2) \<longrightarrow>
                  applyCalls E c = [Apply body2]
                  \<and> (applyErr E = False \<longrightarrow>
                       fst (selfUpdate E c) = None
                       \<and> files (snd (selfUpdate E c)) exe = Some (File body2))))"
  using selfUpdate_equal [OF assms] selfUpdate_differ [OF assms]
  by (auto simp: applyCalls_def)

theorem selfUpdate_gate_witness:
  "reachesCompare sameHashEnv gateWorld ''/games/eq/launcheq.exe'' ''abc''
     (''900150983CD24FB0D6963F7D28E17F72'' @ [CHR 0x0A])
   \<and> ToUpper (TrimSpace (hexString (md5Sum sameHashEnv ''abc'')))
       = ToUpper (TrimSpace (''900150983CD24FB0D6963F7D28E17F72'' @ [CHR 0x0A]))
   \<and> fst (selfUpdate sameHashEnv gateWorld) = None
   \<and> events (snd (selfUpdate sameHashEnv gateWorld))
       = [Remove ''launcheq.bat'', Remove ''.launcheq.exe.old'',
          HttpGet HashTxt ''http://patch.example/launcheq-hash.txt'']
   \<and> files (snd (selfUpdate sameHashEnv gateWorld)) ''/games/eq/launcheq.exe'' = Some (File ''abc'')
   \<and> reachesCompare newHashEnv gateWorld ''/games/eq/launcheq.exe'' ''abc''
         ''0cc175b9c0f1b6a831c399e269772661''
   \<and> ToUpper (TrimSpace (hexString (md5Sum newHashEnv ''abc'')))
       \<noteq> ToUpper (TrimSpace ''0cc175b9c0f1b6a831c399e269772661'')
   \<and> httpGet newHashEnv (exeUrl gateWorld) = Some (Response 200 ''a'')
   \<and> applyErr newHashEnv = False
   \<and> fst (selfUpdate newHashEnv gateWorld) = None
   \<and> events (snd (selfUpdate newHashEnv gateWorld))
       = [Remove ''launcheq.bat'', Remove ''.launcheq.exe.old'',
          HttpGet HashTxt ''http://patch.example/launcheq-hash.txt'',
          HttpGet SelfExe ''http://patch.example/launcheq.exe'', Apply ''a'']
   \<and> files (snd (selfUpdate newHashEnv gateWorld)) ''/games/eq/launcheq.exe'' = Some (File ''a'')"
proof -
  have r1: "reachesCompare sameHashEnv gateWorld ''/games/eq/launcheq.exe'' ''abc''
     (''900150983CD24FB0D6963F7D28E17F72'' @ [CHR 0x0A])"
    by code_simp
  have e1: "ToUpper (TrimSpace (hexString (md5Sum sameHashEnv ''abc'')))
       = ToUpper (TrimSpace (''900150983CD24FB0D6963F7D28E17F72'' @ [CHR 0x0A]))"
    by code_simp
  have r2: "reachesCompare newHashEnv gateWorld ''/games/eq/launcheq.exe'' ''abc''
         ''0cc175b9c0f1b6a831c399e269772661''"
    by code_simp
  have e2: "ToUpper (TrimSpace (hexString (md5Sum newHashEnv ''abc'')))
       \<noteq> ToUpper (TrimSpace ''0cc175b9c0f1b6a831c399e269772661'')"
    by code_simp
  have g: "httpGet newHashEnv (exeUrl gateWorld) = Some (Response 200 ''a'')"
    "applyErr newHashEnv = False"
    by code_simp+
  have w: "events gateWorld = []"
    "cleanupCalls gateWorld = [Remove ''launcheq.bat'', Remove ''.launcheq.exe.old'']"
    "hashUrl gateWorld = ''http://patch.example/launcheq-hash.txt''"
    "exeUrl gateWorld = ''http://patch.example/launcheq.exe''"
    by code_simp+
  have s1: "fst (selfUpdate sameHashEnv gateWorld) = None"
    "events (snd (selfUpdate sameHashEnv gateWorld))
       = [Remove ''launcheq.bat'', Remove ''.launcheq.exe.old'',
          HttpGet HashTxt ''http://patch.example/launcheq-hash.txt'']"
    "files (snd (selfUpdate sameHashEnv gateWorld)) ''/games/eq/launcheq.exe'' = Some (File ''abc'')"
    using selfUpdate_gate [OF r1] e1 by (simp_all add: w)
  have s2: "fst (selfUpdate newHashEnv gateWorld) = None"
    "events (snd (selfUpdate newHashEnv gateWorld))
       = [Remove ''launcheq.bat'', Remove ''.launcheq.exe.old'',
          HttpGet HashTxt ''http://patch.example/launcheq-hash.txt'',
          HttpGet SelfExe ''http://patch.example/launcheq.exe'', Apply ''a'']"
    "files (snd (selfUpdate newHashEnv gateWorld)) ''/games/eq/launcheq.exe'' = Some (File ''a'')"
    using selfUpdate_gate [OF r2] e2 g by (simp_all add: w)
  show ?thesis
    by (intro conjI r1 e1 r2 e2 g s1 s2)
qed

text \<open>
  C2 does not hold of the code. For a response whose trimmed value is the sentinel
  \<open>Not Found\<close> in any letter case, \<open>selfUpdate\<close> does not skip the update: the hashes
  differ (a hash in hexadecimal is never \<open>NOT FOUND\<close>), so the executable is requested, and
  when the answer has status 200 and \<open>selfupdate.Apply\<close> succeeds, the executable's file is
  replaced by the body. The witness runs it on a server that answers every request with
  the text \<open>Not Found\<close>: the executable ends up holding that text.
\<close>

theorem sentinel_does_not_skip_update:
  assumes "reachesCompare E c exe content body"
    and "ToUpper (TrimSpace body) = ''NOT FOUND''"
  shows "events (snd (selfUpdate E c))
           = events c @ cleanupCalls c
             @ [HttpGet HashTxt (hashUrl c), HttpGet SelfExe (exeUrl c)] @ applyCalls E c
       \<and> (\<forall>body2. httpGet E (exeUrl c) = Some (Response 200 body2) \<and> applyErr E = False \<longrightarrow>
             applyCalls E c = [Apply body2]
             \<and> fst (selfUpdate E c) = None
             \<and> files (snd (selfUpdate E c)) exe = Some (File body2))"
proof -
  have ne: "ToUpper (TrimSpace (hexString (md5Sum E content))) \<noteq> ToUpper (TrimSpace body)"
    using hash_not_sentinel [of "md5Sum E content"] assms(2) by simp
  show ?thesis
    using selfUpdate_differ [OF assms(1) ne] by (auto simp: applyCalls_def)
qed

theorem sentinel_does_not_skip_update_witness:
  "reachesCompare sentinelEnv gateWorld ''/games/eq/launcheq.exe'' ''abc'' ''Not Found''
   \<and> ToUpper (TrimSpace ''Not Found'') = ''NOT FOUND''
   \<and> httpGet sentinelEnv (exeUrl gateWorld) = Some (Response 200 ''Not Found'')
   \<and> applyErr sentinelEnv = False
   \<and> fst (selfUpdate sentinelEnv gateWorld) = None
   \<and> events (snd (selfUpdate sentinelEnv gateWorld))
       = [Remove ''launcheq.bat'', Remove ''.launcheq.exe.old'',
          HttpGet HashTxt ''http://patch.example/launcheq-hash.txt'',
          HttpGet SelfExe ''http://patch.example/launcheq.exe'', Apply ''Not Found'']
   \<and> files (snd (selfUpdate sentinelEnv gateWorld)) ''/games/eq/launcheq.exe''
       = Some (File ''Not Found'')"
proof -
  have r: "reachesCompare sentinelEnv gateWorld ''/games/eq/launcheq.exe'' ''abc'' ''Not Found''"
    by code_simp
  have e: "ToUpper (TrimSpace ''Not Found'') = ''NOT FOUND''"
    by code_simp
  have g: "httpGet sentinelEnv (exeUrl gateWorld) = Some (Response 200 ''Not Found'')"
    "applyErr sentinelEnv = False"
    by code_simp+
  have w: "events gateWorld = []"
    "cleanupCalls gateWorld = [Remove ''launcheq.bat'', Remove ''.launcheq.exe.old'']"
    "hashUrl gateWorld = ''http://patch.example/launcheq-hash.txt''"
    "exeUrl gateWorld = ''http://patch.example/launcheq.exe''"
    by code_simp+
  have s: "fst (selfUpdate sentinelEnv gateWorld) = None"
    "events (snd (selfUpdate sentinelEnv gateWorld))
       = [Remove ''launcheq.bat'', Remove ''.launcheq.exe.old'',
          HttpGet HashTxt ''http://patch.example/launcheq-hash.txt'',
          HttpGet SelfExe ''http://patch.example/launcheq.exe'', Apply ''Not Found'']"
    "files (snd (selfUpdate sentinelEnv gateWorld)) ''/games/eq/launcheq.exe''
       = Some (File ''Not Found'')"
    using sentinel_does_not_skip_update [OF r e] g by (simp_all add: w)
  show ?thesis
    by (intro conjI r e g s)
qed

end
